theory Spec2Isabelle
  imports Complex_Main "HOL-Library.Char_ord" "HOL-Library.List_Lexorder" "HOL-Library.Sublist"
begin

section \<open>dbmap: mapping query rows onto annotated Go structs\<close>

text \<open>
  A shallow embedding of package \<^verbatim>\<open>dbmap\<close> (the later of the two revisions of the
  mapping engine held in the source tree, the one with \<^verbatim>\<open>defaultDBName\<close>), of
  \<^verbatim>\<open>native.go\<close>, \<^verbatim>\<open>json.go\<close> and of the test cursor \<^verbatim>\<open>testRow\<close> of
  \<^verbatim>\<open>map_test.go\<close>, with the parts of \<^verbatim>\<open>reflect\<close>, \<^verbatim>\<open>regexp\<close>, \<^verbatim>\<open>strconv\<close> and
  \<^verbatim>\<open>encoding/json\<close> that they call.
\<close>

subsection \<open>Strings and the two regular expressions\<close>

text \<open>
  A Go string is a sequence of bytes; \<^typ>\<open>string\<close> is a list of 8-bit characters.
  The classes \<^verbatim>\<open>[A-Z]\<close> and \<^verbatim>\<open>\d\<close> of Go's regexp are ASCII ranges, and a byte of a
  multi-byte UTF-8 sequence is never in either of them, so matching byte by byte
  is what the rune-wise matcher does.
\<close>

definition isUpper :: "char \<Rightarrow> bool" where
  "isUpper c = (65 \<le> (of_char c :: nat) \<and> (of_char c :: nat) \<le> 90)"

definition isDigit :: "char \<Rightarrow> bool" where
  "isDigit c = (48 \<le> (of_char c :: nat) \<and> (of_char c :: nat) \<le> 57)"

text \<open>
  \<^verbatim>\<open>strings.ToLower\<close> on one byte. The code applies it to runs of \<^verbatim>\<open>[A-Z]\<close> only,
  where it adds 32 to each byte.
\<close>

definition toLowerChar :: "char \<Rightarrow> char" where
  "toLowerChar c = (if isUpper c then char_of ((of_char c :: nat) + 32) else c)"

definition ToLower :: "string \<Rightarrow> string" where
  "ToLower s = map toLowerChar s"

text \<open>\<^verbatim>\<open>strings.Join(parts, sep)\<close>.\<close>

fun Join :: "string list \<Rightarrow> string \<Rightarrow> string" where
  "Join [] sep = []"
| "Join [p] sep = p"
| "Join (p # q # ps) sep = p @ sep @ Join (q # ps) sep"

text \<open>
  \<^verbatim>\<open>fieldNameRe.FindAllStringSubmatch(s, -1)\<close> for
  \<^verbatim>\<open>fieldNameRe = ([A-Z]+)([^A-Z]*)\<close>: the successive leftmost matches, each as
  its two groups. A match starts at the next upper-case byte; both groups are
  greedy, so the first is the whole run of upper-case bytes and the second the
  whole run of other bytes after it.
\<close>

function fieldNameRe_FindAll :: "string \<Rightarrow> (string \<times> string) list" where
  "fieldNameRe_FindAll s =
     (case dropWhile (\<lambda>c. \<not> isUpper c) s of
        [] \<Rightarrow> []
      | u # r \<Rightarrow>
          (let rest = dropWhile isUpper (u # r)
           in (takeWhile isUpper (u # r), takeWhile (\<lambda>c. \<not> isUpper c) rest)
              # fieldNameRe_FindAll (dropWhile (\<lambda>c. \<not> isUpper c) rest)))"
  by pat_completeness auto
termination
proof (relation "measure length", goal_cases)
  case 1
  show ?case by simp
next
  case (2 s u r rest)
  have a: "length (dropWhile (\<lambda>c. \<not> isUpper c) rest) \<le> length rest"
    by (rule length_dropWhile_le)
  have "isUpper u"
    using 2(1) hd_dropWhile [of "\<lambda>c. \<not> isUpper c" s] by auto
  then have b: "length rest \<le> length r"
    using 2(2) length_dropWhile_le [of isUpper r] by simp
  have c: "length (u # r) \<le> length s"
    using 2(1) length_dropWhile_le [of "\<lambda>c. \<not> isUpper c" s] by simp
  from a b c show ?case by simp
qed

declare fieldNameRe_FindAll.simps [simp del]

text \<open>
  \<^verbatim>\<open>defaultDBName\<close>: the loop over the matches appends one or two parts for each.
\<close>

definition dbNameParts :: "string \<times> string \<Rightarrow> string list" where
  "dbNameParts m =
     (let head = fst m; tail = snd m
      in if length head > 1 \<and> length tail \<noteq> 0
         then (let i = length head - 1
               in [ToLower (take i head), ToLower (drop i head) @ tail])
         else [ToLower head @ tail])"

definition defaultDBName :: "string \<Rightarrow> string" where
  "defaultDBName fieldName =
     Join (concat (map dbNameParts (fieldNameRe_FindAll fieldName))) ''_''"

text \<open>
  The tokenization in the words of the specification: the runs of \<^verbatim>\<open>[A-Z]+\<close>, each
  followed by \<^verbatim>\<open>[^A-Z]*\<close>; a run longer than one letter with a non-empty tail gives
  up its last letter to start the next token; every token is lower-cased (its
  letters \<^verbatim>\<open>A\<close> to \<^verbatim>\<open>Z\<close>, the letters that the tokenization speaks of); the tokens
  are joined with an underscore.
\<close>

definition spec_tokens :: "string \<times> string \<Rightarrow> string list" where
  "spec_tokens m =
     (case m of (run, tail) \<Rightarrow>
        if length run > 1 \<and> tail \<noteq> [] then [butlast run, last run # tail]
        else [run @ tail])"

definition spec_defaultDBName :: "string \<Rightarrow> string" where
  "spec_defaultDBName fieldName =
     Join (map ToLower (concat (map spec_tokens (fieldNameRe_FindAll fieldName)))) ''_''"

subsection \<open>Types and values, as package reflect shows them\<close>

datatype kind =
    KInvalid | KBool | KInt | KInt8 | KInt16 | KInt32 | KInt64
  | KUint | KUint8 | KUint16 | KUint32 | KUint64 | KUintptr
  | KFloat32 | KFloat64 | KComplex64 | KComplex128
  | KArray | KChan | KFunc | KInterface | KMap | KPtr | KSlice | KString | KStruct
  | KUnsafePointer

text \<open>
  A \<^verbatim>\<open>reflect.Type\<close>. A struct type has its name and its fields
  (\<^verbatim>\<open>reflect.StructField\<close>: \<open>Name\<close>, \<open>Type\<close>, \<open>Anonymous\<close>, and for \<open>Tag\<close> the value of
  \<^verbatim>\<open>Tag.Get("db")\<close>, which is empty when the field has no such tag). \<open>Basic k n\<close> is
  a type of kind \<open>k\<close>, other than a struct or a pointer, printed as \<open>n\<close>.
\<close>

datatype gotype =
    Basic kind string
  | PtrTo gotype
  | StructT string "field list"
and field =
    StructField (Name: string) (Type: gotype) (Tag: string) (Anonymous: bool)

fun Kind :: "gotype \<Rightarrow> kind" where
  "Kind (Basic k n) = k"
| "Kind (PtrTo t) = KPtr"
| "Kind (StructT n fs) = KStruct"

text \<open>The fields \<^verbatim>\<open>Field(0)\<close>, ..., \<^verbatim>\<open>Field(NumField() - 1)\<close> of a struct type.\<close>

fun fields_of :: "gotype \<Rightarrow> field list" where
  "fields_of (StructT n fs) = fs"
| "fields_of t = []"

text \<open>
  A \<^verbatim>\<open>reflect.Value\<close>: a value with its type. A struct value holds the values of its
  fields by name; any other value is a payload \<open>'v\<close>, which the engine never looks
  into.
\<close>

datatype 'v goval =
    Val gotype 'v
  | StructV gotype "'v fieldval list"
and 'v fieldval =
    FieldV (fvName: string) (fvValue: "'v goval")

fun TypeOf :: "'v goval \<Rightarrow> gotype" where
  "TypeOf (Val t x) = t"
| "TypeOf (StructV t fvs) = t"

fun lookupField :: "'v fieldval list \<Rightarrow> string \<Rightarrow> 'v goval option" where
  "lookupField [] n = None"
| "lookupField (fv # fvs) n = (if fvName fv = n then Some (fvValue fv) else lookupField fvs n)"

text \<open>
  \<^verbatim>\<open>v.FieldByName(name)\<close>, for a field that the struct declares itself. (Go looks
  among the fields of embedded structs when the struct declares no such field;
  every call of the engine names a field of the struct type it walked.) \<open>None\<close> is
  the zero Value, or the panic of \<^verbatim>\<open>FieldByName\<close> on a value that is no struct.
\<close>

fun FieldByName :: "'v goval \<Rightarrow> string \<Rightarrow> 'v goval option" where
  "FieldByName (StructV t fvs) n = lookupField fvs n"
| "FieldByName (Val t x) n = None"

text \<open>
  A nesting resolver is the chain of \<^verbatim>\<open>FieldByName\<close> calls that \<^verbatim>\<open>mapStruct\<close> composes:
  \<^verbatim>\<open>noNesting\<close> is the empty chain, and the closure made for an embedded field
  extends the chain by the field's name. \<open>valueAt p v\<close> follows the chain \<open>p\<close>.
\<close>

fun valueAt :: "string list \<Rightarrow> 'v goval \<Rightarrow> 'v goval option" where
  "valueAt [] v = Some v"
| "valueAt (n # p) v = (case FieldByName v n of None \<Rightarrow> None | Some w \<Rightarrow> valueAt p w)"

text \<open>Storing through a pointer to the field at the end of a chain.\<close>

fun assign :: "string list \<Rightarrow> 'v goval \<Rightarrow> 'v goval \<Rightarrow> 'v goval"
  and assignFields :: "string \<Rightarrow> string list \<Rightarrow> 'v goval \<Rightarrow> 'v fieldval list \<Rightarrow> 'v fieldval list"
where
  "assign [] new v = new"
| "assign (n # p) new (StructV t fvs) = StructV t (assignFields n p new fvs)"
| "assign (n # p) new (Val t x) = Val t x"
| "assignFields n p new [] = []"
| "assignFields n p new (fv # fvs) =
     (if fvName fv = n then FieldV n (assign p new (fvValue fv)) # fvs
      else fv # assignFields n p new fvs)"

text \<open>
  What the engine takes from the Go runtime: the relations of package reflect
  between types, and the payloads of zero values and of \<^verbatim>\<open>jsonScanner{}\<close>.
\<close>

record 'v runtime =
  ConvertibleTo :: "gotype \<Rightarrow> gotype \<Rightarrow> bool"
  AssignableTo :: "gotype \<Rightarrow> gotype \<Rightarrow> bool"
  ImplementsScanner :: "gotype \<Rightarrow> bool"
  zeroPayload :: "gotype \<Rightarrow> 'v"
  emptyMapPayload :: "'v"

text \<open>\<^verbatim>\<open>reflect.New(t)\<close>: the zero value of a type.\<close>

primrec zero :: "'v runtime \<Rightarrow> gotype \<Rightarrow> 'v goval"
  and zeroField :: "'v runtime \<Rightarrow> field \<Rightarrow> 'v fieldval"
where
  "zero rt (Basic k n) = Val (Basic k n) (zeroPayload rt (Basic k n))"
| "zero rt (PtrTo t) = Val (PtrTo t) (zeroPayload rt (PtrTo t))"
| "zero rt (StructT n fs) = StructV (StructT n fs) (map (zeroField rt) fs)"
| "zeroField rt (StructField n t tg a) = FieldV n (zero rt t)"

subsection \<open>Mappers and the registry\<close>

text \<open>
  What \<^verbatim>\<open>Receive\<close> returns for \<^verbatim>\<open>rows.Scan\<close> to fill: the address of the field
  itself, or a pointer to a new variable.
\<close>

datatype 'v receiver = FieldAddr | NewCell "'v goval"

text \<open>
  The interface \<^verbatim>\<open>Mapper\<close>. \<open>Receive\<close> gets the field and \<open>Copy\<close> the field behind
  \<^verbatim>\<open>target\<close> and the variable behind \<^verbatim>\<open>scanned\<close>; \<open>Copy\<close> gives the field's new
  value. \<open>None\<close> is a panic.
\<close>

record 'v Mapper =
  Accepts :: "gotype \<Rightarrow> bool"
  Receive :: "'v goval \<Rightarrow> 'v receiver option"
  Copy :: "'v goval \<Rightarrow> 'v goval \<Rightarrow> 'v goval option"

text \<open>The global \<^verbatim>\<open>mappers\<close> is passed to the functions that read it.\<close>

definition RegisterMapper :: "'v Mapper \<Rightarrow> 'v Mapper list \<Rightarrow> 'v Mapper list" where
  "RegisterMapper mapper mappers = [mapper] @ mappers"

definition zoneT :: gotype where
  "zoneT = StructT ''time.zone''
     [StructField ''name'' (Basic KString ''string'') [] False,
      StructField ''offset'' (Basic KInt ''int'') [] False,
      StructField ''isDST'' (Basic KBool ''bool'') [] False]"

definition locationT :: gotype where
  "locationT = StructT ''time.Location''
     [StructField ''name'' (Basic KString ''string'') [] False,
      StructField ''zone'' (Basic KSlice ''[]time.zone'') [] False,
      StructField ''tx'' (Basic KSlice ''[]time.zoneTrans'') [] False,
      StructField ''extend'' (Basic KString ''string'') [] False,
      StructField ''cacheStart'' (Basic KInt64 ''int64'') [] False,
      StructField ''cacheEnd'' (Basic KInt64 ''int64'') [] False,
      StructField ''cacheZone'' (PtrTo zoneT) [] False]"

definition timeT :: gotype where
  "timeT = StructT ''time.Time''
     [StructField ''wall'' (Basic KUint64 ''uint64'') [] False,
      StructField ''ext'' (Basic KInt64 ''int64'') [] False,
      StructField ''loc'' (PtrTo locationT) [] False]"

definition bytesT :: gotype where
  "bytesT = Basic KSlice ''[]uint8''"

definition mapT :: gotype where
  "mapT = Basic KMap ''map[string]interface {}''"

definition jsonScannerT :: gotype where
  "jsonScannerT = Basic KMap ''dbmap.jsonScanner''"

definition nativeAccepts :: "'v runtime \<Rightarrow> gotype \<Rightarrow> bool" where
  "nativeAccepts rt fieldType =
     (let kind = (case fieldType of PtrTo e \<Rightarrow> Kind e | _ \<Rightarrow> Kind fieldType)
      in if kind \<in> set [KInt, KInt8, KInt16, KInt32, KInt64] then True
         else if kind \<in> set [KUint, KUint8, KUint16, KUint32, KUint64] then True
         else if kind \<in> set [KFloat32, KFloat64, KBool, KString] then True
         else if ConvertibleTo rt fieldType timeT then True
         else if ConvertibleTo rt fieldType (PtrTo timeT) then True
         else if ConvertibleTo rt fieldType bytesT then True
         else False)"

definition nativeMapper :: "'v runtime \<Rightarrow> 'v Mapper" where
  "nativeMapper rt =
     \<lparr>Accepts = nativeAccepts rt,
      Receive = (\<lambda>field. Some FieldAddr),
      Copy = (\<lambda>target scanned. Some target)\<rparr>"

text \<open>
  \<^verbatim>\<open>sqlScannerMapper\<close>: the type assertion in \<^verbatim>\<open>Receive\<close> panics when the pointer to
  the field is no \<^verbatim>\<open>sql.Scanner\<close>.
\<close>

definition sqlScannerMapper :: "'v runtime \<Rightarrow> 'v Mapper" where
  "sqlScannerMapper rt =
     \<lparr>Accepts = (\<lambda>fieldType. ImplementsScanner rt (PtrTo fieldType)),
      Receive = (\<lambda>field. if ImplementsScanner rt (PtrTo (TypeOf field))
                          then Some FieldAddr else None),
      Copy = (\<lambda>target scanned. Some target)\<rparr>"

text \<open>
  \<^verbatim>\<open>jsonMapper\<close>: \<^verbatim>\<open>Receive\<close> returns \<^verbatim>\<open>&jsonScanner{}\<close>; \<^verbatim>\<open>Copy\<close> asserts that
  \<^verbatim>\<open>scanned\<close> is a \<^verbatim>\<open>*jsonScanner\<close> and stores its value with \<^verbatim>\<open>reflect.Value.Set\<close>,
  which panics unless the value is assignable to the field's type.
\<close>

definition jsonMapper :: "'v runtime \<Rightarrow> 'v Mapper" where
  "jsonMapper rt =
     \<lparr>Accepts = (\<lambda>fieldType. ConvertibleTo rt fieldType mapT),
      Receive = (\<lambda>field. Some (NewCell (Val jsonScannerT (emptyMapPayload rt)))),
      Copy = (\<lambda>target scanned.
         (case scanned of
            Val t x \<Rightarrow>
              if t = jsonScannerT \<and> AssignableTo rt jsonScannerT (TypeOf target)
              then Some (Val (TypeOf target) x) else None
          | StructV t fvs \<Rightarrow> None))\<rparr>"

subsection \<open>Building a Mapping\<close>

datatype error =
    NotAStruct kind
  | DuplicateMapping string gotype
  | UnsupportedField string gotype
  | NotConvertible gotype gotype
  | ScanError nat string "gotype option"
  | Foreign string

text \<open>
  The errors of the package are \<^verbatim>\<open>fmt.Errorf\<close> texts; each is kept as the values
  it is formatted from. \<open>Foreign text\<close> is an error made outside the package (by
  the cursor), with its \<^verbatim>\<open>Error()\<close> text.
\<close>

record 'v Mapping =
  structType :: gotype
  dbToStruct :: "string \<rightharpoonup> string"
  mapping :: "string \<rightharpoonup> 'v Mapper"
  scanNesting :: "string \<rightharpoonup> string list"

text \<open>
  \<^verbatim>\<open>mapStruct\<close>, as a loop over the fields that are left. It works on the Mapping
  through a pointer, so what it has stored stays stored when it returns an error;
  the call for an embedded struct drops the error that call returns.
\<close>

function mapStruct ::
  "'v Mapper list \<Rightarrow> field list \<Rightarrow> string list \<Rightarrow> 'v Mapping \<Rightarrow> error option \<times> 'v Mapping"
where
  "mapStruct mappers [] nesting m = (None, m)"
| "mapStruct mappers (f # fs) nesting m =
     (if Tag f = ''-'' then mapStruct mappers fs nesting m
      else if Tag f = [] \<and> Anonymous f \<and> Kind (Type f) = KStruct
      then mapStruct mappers fs nesting
             (snd (mapStruct mappers (fields_of (Type f)) (nesting @ [Name f]) m))
      else
        (let dbName = (if Tag f = [] then defaultDBName (Name f) else Tag f)
         in if dbToStruct m dbName \<noteq> None
            then (Some (DuplicateMapping dbName (structType m)), m)
            else
              (let m1 = m\<lparr>dbToStruct := (dbToStruct m)(dbName \<mapsto> Name f),
                          scanNesting := (scanNesting m)(Name f \<mapsto> nesting)\<rparr>
               in case find (\<lambda>mapper. Accepts mapper (Type f)) mappers of
                    Some mapper \<Rightarrow>
                      mapStruct mappers fs nesting
                        (m1\<lparr>mapping := (mapping m1)(Name f \<mapsto> mapper)\<rparr>)
                  | None \<Rightarrow> (Some (UnsupportedField (Name f) (Type f)), m1))))"
  by pat_completeness auto
termination
proof (relation "measure (\<lambda>(mappers, fs, nesting, m). size_list size fs)", goal_cases)
  case 1
  show ?case by simp
next
  case (2 mappers f fs nesting m)
  show ?case by simp
next
  case (3 mappers f fs nesting m)
  have "size_list size (fields_of (Type f)) < size f"
    by (cases f; cases "Type f") auto
  then show ?case by simp
next
  case (4 mappers f fs nesting m)
  show ?case by simp
next
  case (5 mappers f fs nesting m x xa y)
  show ?case by simp
qed

text \<open>
  \<^verbatim>\<open>StructMapping\<close>, given the type of its argument (\<^verbatim>\<open>reflect.TypeOf(struc)\<close>).
\<close>

definition emptyMapping :: "gotype \<Rightarrow> 'v Mapping" where
  "emptyMapping t =
     \<lparr>structType = t, dbToStruct = Map.empty, mapping = Map.empty, scanNesting = Map.empty\<rparr>"

definition StructMapping :: "'v Mapper list \<Rightarrow> gotype \<Rightarrow> error + 'v Mapping" where
  "StructMapping mappers structType' =
     (if Kind structType' \<noteq> KStruct then Inl (NotAStruct (Kind structType'))
      else (case mapStruct mappers (fields_of structType') [] (emptyMapping structType') of
              (Some err, m) \<Rightarrow> Inl err
            | (None, m) \<Rightarrow> Inr m))"

text \<open>
  The fields that the walk of \<^verbatim>\<open>mapStruct\<close> reaches and treats as columns, in the
  order of the walk: a field tagged \<^verbatim>\<open>-\<close> is passed over, an embedded struct
  without a tag is replaced by the fields reached inside it.
\<close>

primrec walkedOfType :: "gotype \<Rightarrow> field list"
  and walkedOfField :: "field \<Rightarrow> field list"
where
  "walkedOfType (Basic k n) = []"
| "walkedOfType (PtrTo t) = []"
| "walkedOfType (StructT n fs) = concat (map walkedOfField fs)"
| "walkedOfField (StructField n t tg a) =
     (if tg = ''-'' then []
      else if tg = [] \<and> a \<and> Kind t = KStruct then walkedOfType t
      else [StructField n t tg a])"

definition walkedFields :: "field list \<Rightarrow> field list" where
  "walkedFields fs = concat (map walkedOfField fs)"


subsection \<open>Scanning a row\<close>

text \<open>
  \<^verbatim>\<open>rowScanIndexRe.FindStringSubmatch(text)\<close> for
  \<^verbatim>\<open>rowScanIndexRe = index (\d+): (.+)$\<close>: the two groups of the leftmost match.
  At a given start the match is unique: the digits are followed by a colon, and
  \<^verbatim>\<open>.+$\<close> takes the rest of the text, which must be non-empty and hold no newline.
\<close>

definition rowScanIndexRe_matchAt :: "string \<Rightarrow> (string \<times> string) option" where
  "rowScanIndexRe_matchAt s =
     (if take 6 s = ''index ''
      then (let digits = takeWhile isDigit (drop 6 s);
                r = dropWhile isDigit (drop 6 s)
            in if digits \<noteq> [] \<and> take 2 r = '': '' \<and> drop 2 r \<noteq> []
                  \<and> CHR 0x0A \<notin> set (drop 2 r)
               then Some (digits, drop 2 r) else None)
      else None)"

fun rowScanIndexRe_FindStringSubmatch :: "string \<Rightarrow> (string \<times> string) option" where
  "rowScanIndexRe_FindStringSubmatch [] = None"
| "rowScanIndexRe_FindStringSubmatch (c # cs) =
     (case rowScanIndexRe_matchAt (c # cs) of
        Some m \<Rightarrow> Some m
      | None \<Rightarrow> rowScanIndexRe_FindStringSubmatch cs)"

text \<open>
  \<^verbatim>\<open>strconv.Atoi\<close> on a string of digits, with the error dropped as the caller
  drops it: the number, or the largest \<^verbatim>\<open>int\<close> (of 64 bits) when it is out of range.
\<close>

definition Atoi :: "string \<Rightarrow> nat" where
  "Atoi digits =
     min (foldl (\<lambda>a c. 10 * a + ((of_char c :: nat) - 48)) 0 digits) (2 ^ 63 - 1)"

datatype 'a outcome = Panic | Return 'a

text \<open>
  An entry of the slice \<^verbatim>\<open>scan\<close>: \<open>None\<close> is nil, \<open>ToField nesting name\<close> the address
  of the field \<open>name\<close> of the struct that \<open>nesting\<close> leads to, \<open>Cell c\<close> a pointer to a
  variable of its own that holds \<open>c\<close>.
\<close>

datatype 'v slot = ToField "string list" string | Cell "'v goval"

text \<open>
  The interface \<^verbatim>\<open>Row\<close>. \<^verbatim>\<open>Scan\<close> gets pointers: it sees what each points to
  (\<open>None\<close> for nil) and answers with its error (the \<^verbatim>\<open>Error()\<close> text) and, place
  by place, the payload it has stored through the pointer, if any. It stores a
  value of the type of the variable pointed to.
\<close>

datatype 'v scanned = RowPanic | RowReturn "string option" "'v option list"

type_synonym 'v Row = "'v goval option list \<Rightarrow> 'v scanned"

fun pointee :: "'v goval \<Rightarrow> 'v slot option \<Rightarrow> 'v goval option" where
  "pointee tarval None = None"
| "pointee tarval (Some (ToField nesting name)) = valueAt (nesting @ [name]) tarval"
| "pointee tarval (Some (Cell c)) = Some c"

fun recvType :: "'v goval \<Rightarrow> 'v slot option \<Rightarrow> gotype option" where
  "recvType tarval s = map_option (\<lambda>v. PtrTo (TypeOf v)) (pointee tarval s)"

definition storeAt :: "string list \<Rightarrow> 'v \<Rightarrow> 'v goval \<Rightarrow> 'v goval" where
  "storeAt p x tarval =
     (case valueAt p tarval of
        None \<Rightarrow> tarval
      | Some old \<Rightarrow> assign p (Val (TypeOf old) x) tarval)"

text \<open>
  The stores of \<^verbatim>\<open>row.Scan\<close>, in the order of the places: one store, through
  the pointer of its place, and all of them. Nothing can be stored through nil.
\<close>

fun writeOne :: "'v option \<Rightarrow> 'v slot option \<Rightarrow> 'v goval \<Rightarrow> 'v goval \<times> 'v slot option" where
  "writeOne (Some x) (Some (ToField nesting name)) tarval =
     (storeAt (nesting @ [name]) x tarval, Some (ToField nesting name))"
| "writeOne (Some x) (Some (Cell c)) tarval = (tarval, Some (Cell (Val (TypeOf c) x)))"
| "writeOne w s tarval = (tarval, s)"

fun applyWrites ::
  "'v option list \<Rightarrow> 'v slot option list \<Rightarrow> 'v goval \<Rightarrow> 'v goval \<times> 'v slot option list"
where
  "applyWrites (w # ws) (s # ss) tarval =
     (case writeOne w s tarval of
        (tarval1, s1) \<Rightarrow>
          (case applyWrites ws ss tarval1 of (tarval2, ss2) \<Rightarrow> (tarval2, s1 # ss2)))"
| "applyWrites [] ss tarval = (tarval, ss)"
| "applyWrites ws [] tarval = (tarval, [])"

text \<open>
  The first loop of \<^verbatim>\<open>ScanRow\<close>: the slice \<^verbatim>\<open>scan\<close>, or \<open>None\<close> for a panic (the
  call of a nil resolver or of a method of a nil Mapper, a field that the target
  does not have, a panic of \<^verbatim>\<open>Receive\<close>). The fields are taken to be exported:
  reflect does not hand out the address of a field that is not.
\<close>

fun receivers :: "'v Mapping \<Rightarrow> 'v goval \<Rightarrow> string list \<Rightarrow> 'v slot option list option" where
  "receivers m tarval [] = Some []"
| "receivers m tarval (col # cols) =
     (case dbToStruct m col of
        None \<Rightarrow> map_option (\<lambda>scan. None # scan) (receivers m tarval cols)
      | Some strucName \<Rightarrow>
          (case scanNesting m strucName of
             None \<Rightarrow> None
           | Some nesting \<Rightarrow>
               (case valueAt (nesting @ [strucName]) tarval of
                  None \<Rightarrow> None
                | Some field \<Rightarrow>
                    (case mapping m strucName of
                       None \<Rightarrow> None
                     | Some mapper \<Rightarrow>
                         (case Receive mapper field of
                            None \<Rightarrow> None
                          | Some FieldAddr \<Rightarrow>
                              map_option (\<lambda>scan. Some (ToField nesting strucName) # scan)
                                (receivers m tarval cols)
                          | Some (NewCell c) \<Rightarrow>
                              map_option (\<lambda>scan. Some (Cell c) # scan)
                                (receivers m tarval cols))))))"

text \<open>
  The last loop of \<^verbatim>\<open>ScanRow\<close>, over the columns and their entries of \<^verbatim>\<open>scan\<close>.
  The entry of a column that the Mapping knows was filled by the first loop.
\<close>

fun copyAll ::
  "'v Mapping \<Rightarrow> (string \<times> 'v slot option) list \<Rightarrow> 'v goval \<Rightarrow> 'v goval option"
where
  "copyAll m [] tarval = Some tarval"
| "copyAll m ((col, s) # rest) tarval =
     (case dbToStruct m col of
        None \<Rightarrow> copyAll m rest tarval
      | Some strucName \<Rightarrow>
          (case scanNesting m strucName of
             None \<Rightarrow> None
           | Some nesting \<Rightarrow>
               (case valueAt (nesting @ [strucName]) tarval of
                  None \<Rightarrow> None
                | Some field \<Rightarrow>
                    (case mapping m strucName of
                       None \<Rightarrow> None
                     | Some mapper \<Rightarrow>
                         (case pointee tarval s of
                            None \<Rightarrow> None
                          | Some scanned \<Rightarrow>
                              (case Copy mapper field scanned of
                                 None \<Rightarrow> None
                               | Some v \<Rightarrow>
                                   copyAll m rest
                                     (assign (nesting @ [strucName]) v tarval)))))))"

text \<open>
  \<^verbatim>\<open>ScanRow\<close>. \<open>target\<close> is the struct that the argument points to; the result is
  the error and that struct as the call leaves it.
\<close>

definition ScanRow ::
  "'v runtime \<Rightarrow> 'v Mapping \<Rightarrow> 'v goval \<Rightarrow> 'v Row \<Rightarrow> string list
   \<Rightarrow> (error option \<times> 'v goval) outcome"
where
  "ScanRow rt m target row scanOrder =
     (if \<not> ConvertibleTo rt (structType m) (TypeOf target)
      then Return (Some (NotConvertible (structType m) (TypeOf target)), target)
      else
        (case receivers m target scanOrder of
           None \<Rightarrow> Panic
         | Some scan \<Rightarrow>
             (case row (map (pointee target) scan) of
                RowPanic \<Rightarrow> Panic
              | RowReturn err writes \<Rightarrow>
                  (case applyWrites writes scan target of
                     (target1, scan1) \<Rightarrow>
                       (case err of
                          Some text \<Rightarrow>
                            (case rowScanIndexRe_FindStringSubmatch text of
                               Some (digits, msg) \<Rightarrow>
                                 (let index = Atoi digits
                                  in if index < length scan1
                                     then Return (Some (ScanError index msg
                                            (recvType target1 (scan1 ! index))), target1)
                                     else Panic)
                             | None \<Rightarrow> Return (Some (Foreign text), target1))
                        | None \<Rightarrow>
                            (case copyAll m (zip scanOrder scan1) target1 of
                               None \<Rightarrow> Panic
                             | Some target2 \<Rightarrow> Return (None, target2)))))))"

subsection \<open>Cursors\<close>

text \<open>
  The interface \<^verbatim>\<open>Rows\<close>, for a cursor over finitely many rows: what \<^verbatim>\<open>Columns\<close>
  and \<^verbatim>\<open>Err\<close> return (an error as its text), the rows that \<^verbatim>\<open>Next\<close> has not
  reached yet, the row it stands on, and how often \<^verbatim>\<open>Close\<close> was called.
\<close>

record 'v Rows =
  columns :: "string + string list"
  pending :: "'v Row list"
  current :: "'v Row option"
  lastErr :: "string option"
  closed :: nat

definition Next :: "'v Rows \<Rightarrow> bool \<times> 'v Rows" where
  "Next rows =
     (case pending rows of
        [] \<Rightarrow> (False, rows\<lparr>current := None\<rparr>)
      | r # rs \<Rightarrow> (True, rows\<lparr>pending := rs, current := Some r\<rparr>))"

definition Rows_Scan :: "'v Rows \<Rightarrow> 'v Row" where
  "Rows_Scan rows = (case current rows of None \<Rightarrow> (\<lambda>dest. RowPanic) | Some r \<Rightarrow> r)"

definition Close :: "'v Rows \<Rightarrow> 'v Rows" where
  "Close rows = rows\<lparr>closed := Suc (closed rows)\<rparr>"

text \<open>
  \<^verbatim>\<open>ScanOne\<close>: the results, the target and the cursor as the call leaves them. The
  deferred \<^verbatim>\<open>Close\<close> runs on every return.
\<close>

definition ScanOne ::
  "'v runtime \<Rightarrow> 'v Mapping \<Rightarrow> 'v goval \<Rightarrow> 'v Rows
   \<Rightarrow> ((bool \<times> error option) \<times> 'v goval \<times> 'v Rows) outcome"
where
  "ScanOne rt m target rows =
     (case columns rows of
        Inl err \<Rightarrow> Return ((False, Some (Foreign err)), target, Close rows)
      | Inr cols \<Rightarrow>
          (case Next rows of
             (False, rows1) \<Rightarrow> Return ((False, None), target, Close rows1)
           | (True, rows1) \<Rightarrow>
               (case ScanRow rt m target (Rows_Scan rows1) cols of
                  Panic \<Rightarrow> Panic
                | Return (Some err, target1) \<Rightarrow>
                    Return ((False, Some err), target1, Close rows1)
                | Return (None, target1) \<Rightarrow>
                    Return ((True, None), target1, Close rows1))))"

text \<open>
  \<^verbatim>\<open>ScanStream\<close>: what the goroutine sends over the channel before it closes
  it, in order, and the cursor as it leaves it. The channel has no buffer, so the
  receiver gets the elements one by one in this order.
\<close>

datatype 'v elem = Scanned "'v goval" | Failed error

function streamLoop ::
  "'v runtime \<Rightarrow> 'v Mapping \<Rightarrow> string list \<Rightarrow> 'v Rows \<Rightarrow> ('v elem list \<times> 'v Rows) outcome"
where
  "streamLoop rt m cols rows =
     (case Next rows of
        (False, rows1) \<Rightarrow>
          Return ((case lastErr rows1 of None \<Rightarrow> [] | Some err \<Rightarrow> [Failed (Foreign err)]),
                  rows1)
      | (True, rows1) \<Rightarrow>
          (case ScanRow rt m (zero rt (structType m)) (Rows_Scan rows1) cols of
             Panic \<Rightarrow> Panic
           | Return (Some err, scan) \<Rightarrow> Return ([Failed err], rows1)
           | Return (None, scan) \<Rightarrow>
               (case streamLoop rt m cols rows1 of
                  Panic \<Rightarrow> Panic
                | Return (elems, rows2) \<Rightarrow> Return (Scanned scan # elems, rows2))))"
  by pat_completeness auto
termination
  by (relation "measure (\<lambda>(rt, m, cols, rows). length (pending rows))")
     (auto simp: Next_def split: list.splits)

declare streamLoop.simps [simp del]

definition ScanStream ::
  "'v runtime \<Rightarrow> 'v Mapping \<Rightarrow> 'v Rows \<Rightarrow> ('v elem list \<times> 'v Rows) outcome"
where
  "ScanStream rt m rows =
     (case columns rows of
        Inl err \<Rightarrow> Return ([Failed (Foreign err)], Close rows)
      | Inr cols \<Rightarrow>
          (case streamLoop rt m cols rows of
             Panic \<Rightarrow> Panic
           | Return (elems, rows1) \<Rightarrow> Return (elems, Close rows1)))"

text \<open>
  The loop of \<^verbatim>\<open>ScanAll\<close> over the channel, and \<^verbatim>\<open>ScanAll\<close>: the slice (\<open>None\<close>
  for nil) and the error.
\<close>

fun collect :: "'v elem list \<Rightarrow> 'v goval list \<Rightarrow> 'v goval list option \<times> error option" where
  "collect [] slice = (Some slice, None)"
| "collect (Failed err # elems) slice = (None, Some err)"
| "collect (Scanned elem # elems) slice = collect elems (slice @ [elem])"

definition ScanAll ::
  "'v runtime \<Rightarrow> 'v Mapping \<Rightarrow> 'v Rows \<Rightarrow> ('v goval list option \<times> error option) outcome"
where
  "ScanAll rt m rows =
     (case ScanStream rt m rows of
        Panic \<Rightarrow> Panic
      | Return (elems, rows1) \<Rightarrow> Return (collect elems []))"

subsection \<open>The test cursor\<close>

text \<open>
  \<^verbatim>\<open>testRow\<close> of \<^verbatim>\<open>map_test.go\<close>: a map from column names to values, each with its
  dynamic type. \<^verbatim>\<open>Cols\<close> are the keys in order.
\<close>

type_synonym 'v testRow = "(string \<times> gotype \<times> 'v) list"

definition Cols :: "'v testRow \<Rightarrow> string list" where
  "Cols row = sort (remdups (map fst row))"

text \<open>
  The verb \<^verbatim>\<open>%q\<close> on a string of printable characters: in double quotes, with a
  backslash before each double quote and backslash.
\<close>

definition quoted :: "string \<Rightarrow> string" where
  "quoted s =
     [CHR 0x22]
     @ concat (map (\<lambda>c. if c = CHR 0x22 \<or> c = CHR 0x5C then [CHR 0x5C, c] else [c]) s)
     @ [CHR 0x22]"

text \<open>
  The loop of \<^verbatim>\<open>testRow.Scan\<close>: \<^verbatim>\<open>data[i]\<close> panics past the end of \<^verbatim>\<open>data\<close>, and
  \<^verbatim>\<open>Convert\<close> panics when the value's type does not convert to the type of the
  variable.
\<close>

fun testRow_loop ::
  "'v runtime \<Rightarrow> 'v testRow \<Rightarrow> string list \<Rightarrow> 'v goval option list \<Rightarrow> 'v scanned"
where
  "testRow_loop rt row [] dat = RowReturn None []"
| "testRow_loop rt row (col # cols) [] = RowPanic"
| "testRow_loop rt row (col # cols) (None # dat) =
     RowReturn (Some (''receiving column '' @ quoted col @ '' is nil'')) []"
| "testRow_loop rt row (col # cols) (Some tar # dat) =
     (case map_of row col of
        None \<Rightarrow> RowPanic
      | Some (t, x) \<Rightarrow>
          if ConvertibleTo rt t (TypeOf tar)
          then (case testRow_loop rt row cols dat of
                  RowPanic \<Rightarrow> RowPanic
                | RowReturn err writes \<Rightarrow> RowReturn err (Some x # writes))
          else RowPanic)"

definition testRow_Scan :: "'v runtime \<Rightarrow> 'v testRow \<Rightarrow> 'v Row" where
  "testRow_Scan rt row dat = testRow_loop rt row (Cols row) dat"

subsection \<open>The registry after initialisation, and the types of the examples\<close>

text \<open>The registry after a sequence of \<^verbatim>\<open>RegisterMapper\<close> calls, first call first.\<close>

fun registerAll :: "'v Mapper list \<Rightarrow> 'v Mapper list \<Rightarrow> 'v Mapper list" where
  "registerAll [] mappers = mappers"
| "registerAll (r # rs) mappers = registerAll rs (RegisterMapper r mappers)"

text \<open>
  The \<^verbatim>\<open>init\<close> functions run in the order of the file names: that of
  \<^verbatim>\<open>json.go\<close>, then that of \<^verbatim>\<open>native.go\<close>.
\<close>

definition initMappers :: "'v runtime \<Rightarrow> 'v Mapper list" where
  "initMappers rt = registerAll [jsonMapper rt, nativeMapper rt, sqlScannerMapper rt] []"

text \<open>
  A runtime for the examples, which use the types below and those of the
  built-in mappers. Among these, reflect's \<^verbatim>\<open>ConvertibleTo\<close> holds of a type and
  itself, between numeric types, between complex types, from an integer type to
  a string type, between a string type and \<^verbatim>\<open>[]byte\<close>, and between
  \<^verbatim>\<open>map[string]interface{}\<close> and \<^verbatim>\<open>jsonScanner\<close>, whose underlying types are
  identical; \<^verbatim>\<open>AssignableTo\<close> holds of a type and itself and between the two map
  types, one of which has no name. No two of the struct types differ in their
  names or tags only, and no pointer to one of the types is a \<^verbatim>\<open>sql.Scanner\<close>.
  Payloads are written as text.
\<close>

definition integerKind :: "kind \<Rightarrow> bool" where
  "integerKind k =
     (k \<in> set [KInt, KInt8, KInt16, KInt32, KInt64,
               KUint, KUint8, KUint16, KUint32, KUint64, KUintptr])"

definition numericKind :: "kind \<Rightarrow> bool" where
  "numericKind k = (integerKind k \<or> k = KFloat32 \<or> k = KFloat64)"

definition complexKind :: "kind \<Rightarrow> bool" where
  "complexKind k = (k = KComplex64 \<or> k = KComplex128)"

definition convertible0 :: "gotype \<Rightarrow> gotype \<Rightarrow> bool" where
  "convertible0 a b =
     (a = b
      \<or> (numericKind (Kind a) \<and> numericKind (Kind b))
      \<or> (complexKind (Kind a) \<and> complexKind (Kind b))
      \<or> (integerKind (Kind a) \<and> Kind b = KString)
      \<or> (Kind a = KString \<and> b = bytesT)
      \<or> (a = bytesT \<and> Kind b = KString)
      \<or> (a = mapT \<and> b = jsonScannerT)
      \<or> (a = jsonScannerT \<and> b = mapT))"

definition assignable0 :: "gotype \<Rightarrow> gotype \<Rightarrow> bool" where
  "assignable0 a b =
     (a = b \<or> (a = mapT \<and> b = jsonScannerT) \<or> (a = jsonScannerT \<and> b = mapT))"

definition rt0 :: "string runtime" where
  "rt0 = \<lparr>ConvertibleTo = convertible0, AssignableTo = assignable0,
          ImplementsScanner = (\<lambda>t. False),
          zeroPayload = (\<lambda>t. []), emptyMapPayload = ''map[]''\<rparr>"

definition intT :: gotype where
  "intT = Basic KInt ''int''"

definition stringT :: gotype where
  "stringT = Basic KString ''string''"

definition stringSliceT :: gotype where
  "stringSliceT = Basic KSlice ''[]string''"

text \<open>
  \<^verbatim>\<open>MyEmbeddedStruct\<close> of \<^verbatim>\<open>TestDuplicateMappingEmbedded\<close>, and \<^verbatim>\<open>MyStruct\<close> of that
  test with its two fields in the other order.
\<close>

definition MyEmbeddedStruct :: gotype where
  "MyEmbeddedStruct = StructT ''MyEmbeddedStruct'' [StructField ''Foo'' intT ''foo'' False]"

definition MyStructSwapped :: gotype where
  "MyStructSwapped = StructT ''MyStruct''
     [StructField ''Bar'' intT ''foo'' False,
      StructField ''MyEmbeddedStruct'' MyEmbeddedStruct [] True]"

text \<open>Two embedded structs that name the same column.\<close>

definition OtherEmbeddedStruct :: gotype where
  "OtherEmbeddedStruct = StructT ''OtherEmbeddedStruct'' [StructField ''Baz'' intT ''foo'' False]"

definition TwoEmbedded :: gotype where
  "TwoEmbedded = StructT ''TwoEmbedded''
     [StructField ''MyEmbeddedStruct'' MyEmbeddedStruct [] True,
      StructField ''OtherEmbeddedStruct'' OtherEmbeddedStruct [] True]"

text \<open>An embedded struct with a field that no built-in mapper accepts.\<close>

definition WithTags :: gotype where
  "WithTags = StructT ''WithTags'' [StructField ''Tags'' stringSliceT ''tags'' False]"

definition HoldsTags :: gotype where
  "HoldsTags = StructT ''HoldsTags'' [StructField ''WithTags'' WithTags [] True]"

text \<open>Two embedded structs whose fields have the same name and different columns.\<close>

definition User :: gotype where
  "User = StructT ''User'' [StructField ''ID'' intT ''user_id'' False]"

definition Post :: gotype where
  "Post = StructT ''Post'' [StructField ''ID'' intT ''post_id'' False]"

definition Joined :: gotype where
  "Joined = StructT ''Joined'' [StructField ''User'' User [] True, StructField ''Post'' Post [] True]"

text \<open>
  Two embedded structs whose fields have the same name and types that different
  Mappers accept.
\<close>

definition Meta :: gotype where
  "Meta = StructT ''Meta'' [StructField ''ID'' mapT ''meta_id'' False]"

definition MetaPost :: gotype where
  "MetaPost = StructT ''MetaPost''
     [StructField ''Meta'' Meta [] True, StructField ''Post'' Post [] True]"

text \<open>\<^verbatim>\<open>MyStruct\<close> of \<^verbatim>\<open>TestDefaultNameMapping\<close>.\<close>

definition MyStructFoo :: gotype where
  "MyStructFoo = StructT ''MyStruct'' [StructField ''Foo'' stringT [] False]"

text \<open>
  The Mappings that \<^verbatim>\<open>StructMapping\<close> builds for these types (lemma
  \<open>StructMapping_examples\<close>).
\<close>

definition swappedMapping :: "string Mapping" where
  "swappedMapping =
     \<lparr>structType = MyStructSwapped, dbToStruct = [''foo'' \<mapsto> ''Bar''],
      mapping = [''Bar'' \<mapsto> nativeMapper rt0], scanNesting = [''Bar'' \<mapsto> []]\<rparr>"

definition twoEmbeddedMapping :: "string Mapping" where
  "twoEmbeddedMapping =
     \<lparr>structType = TwoEmbedded, dbToStruct = [''foo'' \<mapsto> ''Foo''],
      mapping = [''Foo'' \<mapsto> nativeMapper rt0],
      scanNesting = [''Foo'' \<mapsto> [''MyEmbeddedStruct'']]\<rparr>"

definition tagsMapping :: "string Mapping" where
  "tagsMapping =
     \<lparr>structType = HoldsTags, dbToStruct = [''tags'' \<mapsto> ''Tags''],
      mapping = Map.empty, scanNesting = [''Tags'' \<mapsto> [''WithTags'']]\<rparr>"

definition joinedMapping :: "string Mapping" where
  "joinedMapping =
     \<lparr>structType = Joined, dbToStruct = [''user_id'' \<mapsto> ''ID'', ''post_id'' \<mapsto> ''ID''],
      mapping = [''ID'' \<mapsto> nativeMapper rt0], scanNesting = [''ID'' \<mapsto> [''Post'']]\<rparr>"

definition fooMapping :: "string Mapping" where
  "fooMapping =
     \<lparr>structType = MyStructFoo, dbToStruct = [''foo'' \<mapsto> ''Foo''],
      mapping = [''Foo'' \<mapsto> nativeMapper rt0], scanNesting = [''Foo'' \<mapsto> []]\<rparr>"

text \<open>A row whose \<^verbatim>\<open>Scan\<close> stores nothing and returns an error with a given text.\<close>

definition failingRow :: "string \<Rightarrow> 'v Row" where
  "failingRow text' dest = RowReturn (Some text') []"

text \<open>The answer of a \<^verbatim>\<open>Scan\<close> with the store at one place replaced.\<close>

fun withWrite :: "nat \<Rightarrow> 'v option \<Rightarrow> 'v scanned \<Rightarrow> 'v scanned" where
  "withWrite i w RowPanic = RowPanic"
| "withWrite i w (RowReturn err writes) = RowReturn err (writes[i := w])"

text \<open>
  Two chains of field names are apart when neither leads through the field
  that the other ends in.
\<close>

definition apart :: "string list \<Rightarrow> string list \<Rightarrow> bool" where
  "apart p q = (\<not> prefix p q \<and> \<not> prefix q p)"

text \<open>A cursor like \<^verbatim>\<open>testRows\<close>: the columns, and the rows not yet reached.\<close>

definition cursorOf :: "string list \<Rightarrow> 'v Row list \<Rightarrow> 'v Rows" where
  "cursorOf cols rs =
     \<lparr>columns = Inr cols, pending = rs, current = None, lastErr = None, closed = 0\<rparr>"

subsection \<open>The JSON converter: jsonScanner\<close>

text \<open>
  \<^verbatim>\<open>jsonScanner\<close> is \<^verbatim>\<open>map[string]interface{}\<close> under another name. Its two methods
  hand the work to \<^verbatim>\<open>encoding/json\<close>, which is modelled here from its
  documentation (\<^verbatim>\<open>Marshal\<close> and \<^verbatim>\<open>Unmarshal\<close>, which \<^verbatim>\<open>Encoder.Encode\<close> and
  \<^verbatim>\<open>Decoder.Decode\<close> follow).

  A \<^verbatim>\<open>float64\<close> that is finite is kept as the rational number it is; the two zeros
  are not told apart.
\<close>

datatype float64 = F64 rat | PlusInf | MinusInf | NaN

text \<open>
  The values that an \<^verbatim>\<open>interface{}\<close> in such a map holds, as far as they are
  followed here: nil, a \<^verbatim>\<open>bool\<close>, a \<^verbatim>\<open>float64\<close>, a \<^verbatim>\<open>string\<close>, a value of one of the
  integer types (\<^verbatim>\<open>int\<close>, \<^verbatim>\<open>int64\<close>, \<^verbatim>\<open>uint8\<close>, ...), a \<^verbatim>\<open>func\<close>, a \<^verbatim>\<open>[]interface{}\<close> and
  a \<^verbatim>\<open>map[string]interface{}\<close>, the last two nil or not. A map that is not nil is
  the list of its entries in the order of their keys, each key once; this is the
  order in which \<^verbatim>\<open>Encode\<close> writes them (the map keys are sorted).
\<close>

datatype dyn =
    DNil
  | DBool bool
  | DFloat64 float64
  | DString string
  | DInt int
  | DFunc
  | DNilSlice
  | DSlice "dyn list"
  | DNilMap
  | DMap "entry list"
and entry = Entry string dyn

fun keyOf :: "entry \<Rightarrow> string" where
  "keyOf (Entry k v) = k"

text \<open>
  A JSON value. A number is kept as \<^verbatim>\<open>Encode\<close> comes to write it: \<open>Shortest x\<close> is
  the decimal that \<^verbatim>\<open>strconv.FormatFloat\<close> writes for the finite \<^verbatim>\<open>float64\<close> \<open>x\<close>
  with precision \<^verbatim>\<open>-1\<close>, the shortest one that \<^verbatim>\<open>ParseFloat\<close> reads back as \<open>x\<close>;
  \<open>Digits i\<close> are the decimal digits of the integer \<open>i\<close>. A string is kept as the
  bytes of its UTF-8 form, and the members of an object in the order of the
  text.
\<close>

datatype number = Shortest rat | Digits int

datatype json =
    JNull
  | JBool bool
  | JNumber number
  | JString string
  | JArray "json list"
  | JObject "member list"
and member = Member string json

text \<open>
  A text is kept as the JSON value that it writes down: \<^verbatim>\<open>Encode\<close> writes the text
  of one JSON value and a newline, and \<^verbatim>\<open>Decode\<close> reads the first JSON value of
  its input. The escapes that \<^verbatim>\<open>Encode\<close> chooses, those of the characters of HTML
  among them, leave that value as it is. \<open>NoJSON\<close> is a text that does not begin with a JSON value.
\<close>

datatype jsonText = JSONText json | NoJSON

text \<open>
  The raw value of a column (\<^verbatim>\<open>driver.Value\<close>): a \<^verbatim>\<open>string\<close>, a \<^verbatim>\<open>[]byte\<close>, or
  something else.
\<close>

datatype driverValue = VString jsonText | VBytes jsonText | VOther

text \<open>
  The errors: \<^verbatim>\<open>json.UnsupportedTypeError\<close>, \<^verbatim>\<open>json.UnsupportedValueError\<close>,
  \<^verbatim>\<open>json.SyntaxError\<close> (or \<^verbatim>\<open>io.EOF\<close> for an empty text),
  \<^verbatim>\<open>json.UnmarshalTypeError\<close>, and the error of \<^verbatim>\<open>Scan\<close> itself.
\<close>

datatype jsonError =
    UnsupportedType
  | UnsupportedValue float64
  | SyntaxError
  | UnmarshalTypeError
  | CanNotDecode driverValue

text \<open>
  \<^verbatim>\<open>strconv.ParseFloat\<close> on the two kinds of number: the \<^verbatim>\<open>float64\<close> nearest to the
  number, a tie going to the even mantissa of 53 bits. The integer types have 64
  bits at most, so the result is finite.
\<close>

function bitLen :: "int \<Rightarrow> nat" where
  "bitLen n = (if n \<le> 0 then 0 else Suc (bitLen (n div 2)))"
  by pat_completeness auto
termination
  by (relation "measure nat") auto

declare bitLen.simps [simp del]

definition nearestFloat :: "int \<Rightarrow> rat" where
  "nearestFloat i =
     (let n = \<bar>i\<bar>; k = bitLen n - 53; q = n div 2 ^ k; r = n mod 2 ^ k
      in if k = 0 then of_int i
         else of_int (sgn i * (if 2 ^ (k - 1) < r \<or> (r = 2 ^ (k - 1) \<and> odd q)
                               then q + 1 else q) * 2 ^ k))"

fun ParseFloat :: "number \<Rightarrow> float64" where
  "ParseFloat (Shortest x) = F64 x"
| "ParseFloat (Digits i) = F64 (nearestFloat i)"

text \<open>
  String values encode as JSON strings coerced to valid UTF-8, replacing
  invalid bytes with the Unicode replacement rune. Here \<open>runeSize\<close> is the number of
  bytes of the UTF-8 sequence at the head of a string (\<^verbatim>\<open>utf8.DecodeRuneInString\<close>),
  \<open>0\<close> when there is none; the replacement rune is \<^verbatim>\<open>EF BF BD\<close>, written for each
  byte that begins no sequence.
\<close>

definition cont :: "nat \<Rightarrow> bool" where
  "cont b = (128 \<le> b \<and> b \<le> 191)"

fun runeSize :: "nat list \<Rightarrow> nat" where
  "runeSize [] = 0"
| "runeSize (b0 # bs) =
     (if b0 < 128 then 1
      else if 194 \<le> b0 \<and> b0 \<le> 223
      then (case bs of b1 # rest \<Rightarrow> if cont b1 then 2 else 0 | _ \<Rightarrow> 0)
      else if 224 \<le> b0 \<and> b0 \<le> 239
      then (case bs of
              b1 # b2 # rest \<Rightarrow>
                if (if b0 = 224 then 160 else 128) \<le> b1
                   \<and> b1 \<le> (if b0 = 237 then 159 else 191) \<and> cont b2
                then 3 else 0
            | _ \<Rightarrow> 0)
      else if 240 \<le> b0 \<and> b0 \<le> 244
      then (case bs of
              b1 # b2 # b3 # rest \<Rightarrow>
                if (if b0 = 240 then 144 else 128) \<le> b1
                   \<and> b1 \<le> (if b0 = 244 then 143 else 191) \<and> cont b2 \<and> cont b3
                then 4 else 0
            | _ \<Rightarrow> 0)
      else 0)"

declare runeSize.simps [simp del]

fun toValidUTF8 :: "string \<Rightarrow> string" where
  "toValidUTF8 [] = []"
| "toValidUTF8 (c # cs) =
     (let n = runeSize (map of_char (c # cs))
      in if n = 0 then map char_of [239, 191, 189 :: nat] @ toValidUTF8 cs
         else c # take (n - 1) cs @ toValidUTF8 (drop (n - 1) cs))"

declare toValidUTF8.simps [simp del]

text \<open>The results of encoding the elements in turn, up to the first error.\<close>

fun collect_results :: "('e + 'a) list \<Rightarrow> 'e + 'a list" where
  "collect_results [] = Inr []"
| "collect_results (Inl e # rs) = Inl e"
| "collect_results (Inr x # rs) = map_sum id ((#) x) (collect_results rs)"

text \<open>
  \<^verbatim>\<open>json.Marshal\<close> on a value by its dynamic type: nil, a nil slice and a nil map
  give \<^verbatim>\<open>null\<close>; a floating-point or integer number gives a JSON number, but a
  \<^verbatim>\<open>NaN\<close> or an infinity an \<^verbatim>\<open>UnsupportedValueError\<close>; a \<^verbatim>\<open>func\<close> gives an
  \<^verbatim>\<open>UnsupportedTypeError\<close>; a slice gives an array, a map an object with its keys
  in order, each coerced like a string.
\<close>

primrec marshal :: "dyn \<Rightarrow> jsonError + json"
  and marshalEntry :: "entry \<Rightarrow> jsonError + member"
where
  "marshal DNil = Inr JNull"
| "marshal (DBool b) = Inr (JBool b)"
| "marshal (DFloat64 x) =
     (case x of F64 r \<Rightarrow> Inr (JNumber (Shortest r)) | _ \<Rightarrow> Inl (UnsupportedValue x))"
| "marshal (DString s) = Inr (JString (toValidUTF8 s))"
| "marshal (DInt i) = Inr (JNumber (Digits i))"
| "marshal DFunc = Inl UnsupportedType"
| "marshal DNilSlice = Inr JNull"
| "marshal (DSlice vs) = map_sum id JArray (collect_results (map marshal vs))"
| "marshal DNilMap = Inr JNull"
| "marshal (DMap es) = map_sum id JObject (collect_results (map marshalEntry es))"
| "marshalEntry (Entry k v) = map_sum id (Member (toValidUTF8 k)) (marshal v)"

text \<open>The assignment \<^verbatim>\<open>m[k] = v\<close> on a map.\<close>

fun mapassign :: "entry \<Rightarrow> entry list \<Rightarrow> entry list" where
  "mapassign e [] = [e]"
| "mapassign e (x # xs) =
     (if keyOf e < keyOf x then e # x # xs
      else if keyOf e = keyOf x then e # xs
      else x # mapassign e xs)"

text \<open>
  \<^verbatim>\<open>json.Unmarshal\<close> into an \<^verbatim>\<open>interface{}\<close>: \<^verbatim>\<open>bool\<close> for JSON booleans, \<^verbatim>\<open>float64\<close>
  for JSON numbers, \<^verbatim>\<open>string\<close> for JSON strings, \<^verbatim>\<open>[]interface{}\<close> for JSON arrays,
  \<^verbatim>\<open>map[string]interface{}\<close> for JSON objects, \<^verbatim>\<open>nil\<close> for JSON null. The members
  of an object are stored one after the other, so of two members with one name
  the later one stays.
\<close>

primrec unmarshal :: "json \<Rightarrow> dyn"
  and unmarshalMember :: "member \<Rightarrow> entry"
where
  "unmarshal JNull = DNil"
| "unmarshal (JBool b) = DBool b"
| "unmarshal (JNumber n) = DFloat64 (ParseFloat n)"
| "unmarshal (JString s) = DString s"
| "unmarshal (JArray js) = DSlice (map unmarshal js)"
| "unmarshal (JObject ms) = DMap (foldl (\<lambda>m e. mapassign e m) [] (map unmarshalMember ms))"
| "unmarshalMember (Member k j) = Entry k (unmarshal j)"

text \<open>A \<^verbatim>\<open>jsonScanner\<close>: the nil map, or the entries of a map.\<close>

type_synonym jsonScanner = "entry list option"

text \<open>\<^verbatim>\<open>json.NewEncoder(buf).Encode(js)\<close>, with the text that is in \<^verbatim>\<open>buf\<close> afterwards.\<close>

definition Encode :: "jsonScanner \<Rightarrow> jsonError + jsonText" where
  "Encode js = map_sum id JSONText (marshal (case js of None \<Rightarrow> DNilMap | Some es \<Rightarrow> DMap es))"

text \<open>
  \<^verbatim>\<open>json.NewDecoder(in).Decode(js)\<close>, with the map that \<^verbatim>\<open>js\<close> points to afterwards.
  To unmarshal a JSON object into a map, Unmarshal first establishes a map to
  use: if the map is nil, it allocates a new map, otherwise it reuses the
  existing map, keeping existing entries. The value \<^verbatim>\<open>null\<close> sets the map to
  nil, and any other JSON value is an \<^verbatim>\<open>UnmarshalTypeError\<close>.
\<close>

definition Decode :: "jsonText \<Rightarrow> jsonScanner \<Rightarrow> jsonError option \<times> jsonScanner" where
  "Decode t js =
     (case t of
        NoJSON \<Rightarrow> (Some SyntaxError, js)
      | JSONText JNull \<Rightarrow> (None, None)
      | JSONText (JObject ms) \<Rightarrow>
          (None, Some (foldl (\<lambda>m e. mapassign e m) (case js of None \<Rightarrow> [] | Some es \<Rightarrow> es)
                         (map unmarshalMember ms)))
      | JSONText j \<Rightarrow> (Some UnmarshalTypeError, js))"

text \<open>
  \<^verbatim>\<open>(*jsonScanner).Scan\<close>: the error returned, and the map that the receiver points
  to afterwards.
\<close>

definition jsonScanner_Scan ::
  "jsonScanner \<Rightarrow> driverValue \<Rightarrow> jsonError option \<times> jsonScanner"
where
  "jsonScanner_Scan js v =
     (case v of
        VString t \<Rightarrow> Decode t js
      | VBytes t \<Rightarrow> Decode t js
      | VOther \<Rightarrow> (Some (CanNotDecode v), js))"

text \<open>\<^verbatim>\<open>jsonScanner.Value\<close>: the error of \<^verbatim>\<open>Encode\<close>, or the text as a \<^verbatim>\<open>string\<close>.\<close>

definition jsonScanner_Value :: "jsonScanner \<Rightarrow> jsonError + driverValue" where
  "jsonScanner_Value js =
     (case Encode js of Inl err \<Rightarrow> Inl err | Inr t \<Rightarrow> Inr (VString t))"

text \<open>
  The values that JSON has a form of its own for: nil, a \<^verbatim>\<open>bool\<close>, a finite
  \<^verbatim>\<open>float64\<close>, a \<^verbatim>\<open>string\<close> that is valid UTF-8, and a \<^verbatim>\<open>[]interface{}\<close> and a
  \<^verbatim>\<open>map[string]interface{}\<close> that are not nil and hold such values, the keys of the
  map valid UTF-8 (and in order, each once, as the entries of a map are kept).
\<close>

primrec jsonNative :: "dyn \<Rightarrow> bool"
  and jsonNativeEntry :: "entry \<Rightarrow> bool"
where
  "jsonNative DNil = True"
| "jsonNative (DBool b) = True"
| "jsonNative (DFloat64 x) = (case x of F64 r \<Rightarrow> True | _ \<Rightarrow> False)"
| "jsonNative (DString s) = (toValidUTF8 s = s)"
| "jsonNative (DInt i) = False"
| "jsonNative DFunc = False"
| "jsonNative DNilSlice = False"
| "jsonNative (DSlice vs) = list_all (\<lambda>b. b) (map jsonNative vs)"
| "jsonNative DNilMap = False"
| "jsonNative (DMap es) =
     (list_all (\<lambda>b. b) (map jsonNativeEntry es) \<and> sorted_wrt (<) (map keyOf es))"
| "jsonNativeEntry (Entry k v) = (toValidUTF8 k = k \<and> jsonNative v)"

subsection \<open>Column-name inference\<close>

lemma ToLower_no_upper: "\<forall>c \<in> set s. \<not> isUpper c \<Longrightarrow> ToLower s = s"
  by (induction s) (simp_all add: ToLower_def toLowerChar_def)

lemma ToLower_append: "ToLower (a @ b) = ToLower a @ ToLower b"
  by (simp add: ToLower_def)

lemma FindAll_Nil:
  assumes "dropWhile (\<lambda>c. \<not> isUpper c) s = []"
  shows "fieldNameRe_FindAll s = []"
  by (subst fieldNameRe_FindAll.simps) (simp only: assms list.case)

lemma FindAll_Cons:
  assumes "dropWhile (\<lambda>c. \<not> isUpper c) s = u # r"
  shows "fieldNameRe_FindAll s =
     (takeWhile isUpper (u # r), takeWhile (\<lambda>c. \<not> isUpper c) (dropWhile isUpper (u # r)))
     # fieldNameRe_FindAll (dropWhile (\<lambda>c. \<not> isUpper c) (dropWhile isUpper (u # r)))"
  by (subst fieldNameRe_FindAll.simps) (simp only: assms list.case Let_def)

lemma FindAll_groups:
  "(h, t) \<in> set (fieldNameRe_FindAll s) \<Longrightarrow> h \<noteq> [] \<and> (\<forall>c \<in> set t. \<not> isUpper c)"
proof (induction s rule: fieldNameRe_FindAll.induct)
  case (1 s)
  show ?case
  proof (cases "dropWhile (\<lambda>c. \<not> isUpper c) s")
    case Nil
    with 1(2) show ?thesis by (simp add: FindAll_Nil)
  next
    case (Cons u r)
    define rest where "rest = dropWhile isUpper (u # r)"
    have up: "isUpper u"
      using Cons hd_dropWhile [of "\<lambda>c. \<not> isUpper c" s] by auto
    from 1(2) have "(h, t) = (takeWhile isUpper (u # r), takeWhile (\<lambda>c. \<not> isUpper c) rest)
      \<or> (h, t) \<in> set (fieldNameRe_FindAll (dropWhile (\<lambda>c. \<not> isUpper c) rest))"
      unfolding FindAll_Cons [OF Cons] rest_def by simp
    then show ?thesis
    proof
      assume "(h, t) = (takeWhile isUpper (u # r), takeWhile (\<lambda>c. \<not> isUpper c) rest)"
      then have h: "h = takeWhile isUpper (u # r)"
        and t: "t = takeWhile (\<lambda>c. \<not> isUpper c) rest"
        by simp_all
      have "h \<noteq> []" using h up by simp
      moreover have "\<forall>c \<in> set t. \<not> isUpper c"
        unfolding t by (auto dest: set_takeWhileD)
      ultimately show ?thesis by simp
    next
      assume "(h, t) \<in> set (fieldNameRe_FindAll (dropWhile (\<lambda>c. \<not> isUpper c) rest))"
      then show ?thesis
        by (rule "1.IH" [OF Cons rest_def])
    qed
  qed
qed

lemma FindAll_concat:
  "concat (map (\<lambda>(h, t). h @ t) (fieldNameRe_FindAll s)) = dropWhile (\<lambda>c. \<not> isUpper c) s"
proof (induction s rule: fieldNameRe_FindAll.induct)
  case (1 s)
  show ?case
  proof (cases "dropWhile (\<lambda>c. \<not> isUpper c) s")
    case Nil
    show ?thesis unfolding FindAll_Nil [OF Nil] Nil by simp
  next
    case (Cons u r)
    define rest where "rest = dropWhile isUpper (u # r)"
    have "concat (map (\<lambda>(h, t). h @ t)
            (fieldNameRe_FindAll (dropWhile (\<lambda>c. \<not> isUpper c) rest)))
          = dropWhile (\<lambda>c. \<not> isUpper c) rest"
      using "1.IH" [OF Cons rest_def] by (simp add: dropWhile_idem)
    then have "concat (map (\<lambda>(h, t). h @ t) (fieldNameRe_FindAll s))
          = takeWhile isUpper (u # r)
            @ (takeWhile (\<lambda>c. \<not> isUpper c) rest @ dropWhile (\<lambda>c. \<not> isUpper c) rest)"
      unfolding FindAll_Cons [OF Cons] rest_def by simp
    also have "\<dots> = takeWhile isUpper (u # r) @ rest"
      by (simp only: takeWhile_dropWhile_id)
    also have "\<dots> = u # r"
      unfolding rest_def by (simp only: takeWhile_dropWhile_id)
    finally show ?thesis
      using Cons by simp
  qed
qed

lemma FindAll_heads:
  "(h, t) \<in> set (fieldNameRe_FindAll s) \<Longrightarrow> \<forall>c \<in> set h. isUpper c"
proof (induction s rule: fieldNameRe_FindAll.induct)
  case (1 s)
  show ?case
  proof (cases "dropWhile (\<lambda>c. \<not> isUpper c) s")
    case Nil
    with 1(2) show ?thesis by (simp add: FindAll_Nil)
  next
    case (Cons u r)
    define rest where "rest = dropWhile isUpper (u # r)"
    from 1(2) have "h = takeWhile isUpper (u # r)
      \<or> (h, t) \<in> set (fieldNameRe_FindAll (dropWhile (\<lambda>c. \<not> isUpper c) rest))"
      unfolding FindAll_Cons [OF Cons] rest_def by auto
    then show ?thesis
    proof
      assume "h = takeWhile isUpper (u # r)"
      then show ?thesis by (auto dest: set_takeWhileD)
    next
      assume "(h, t) \<in> set (fieldNameRe_FindAll (dropWhile (\<lambda>c. \<not> isUpper c) rest))"
      then show ?thesis
        by (rule "1.IH" [OF Cons rest_def])
    qed
  qed
qed

text \<open>A run ends only where the next run begins or the name ends.\<close>

lemma FindAll_maximal:
  "fieldNameRe_FindAll s = before @ (h, t) # (h', t') # after \<Longrightarrow> t \<noteq> []"
proof (induction s arbitrary: before rule: fieldNameRe_FindAll.induct)
  case (1 s)
  show ?case
  proof (cases "dropWhile (\<lambda>c. \<not> isUpper c) s")
    case Nil
    with 1(2) show ?thesis by (simp add: FindAll_Nil)
  next
    case (Cons u r)
    define rest where "rest = dropWhile isUpper (u # r)"
    let ?next = "fieldNameRe_FindAll (dropWhile (\<lambda>c. \<not> isUpper c) rest)"
    have eq: "(takeWhile isUpper (u # r), takeWhile (\<lambda>c. \<not> isUpper c) rest) # ?next
              = before @ (h, t) # (h', t') # after"
      using 1(2) unfolding FindAll_Cons [OF Cons] rest_def by simp
    show ?thesis
    proof (cases before)
      case Nil
      with eq have t: "t = takeWhile (\<lambda>c. \<not> isUpper c) rest" and n: "?next \<noteq> []"
        by auto
      show ?thesis
      proof
        assume "t = []"
        with t have "rest = [] \<or> isUpper (hd rest)"
          by (cases rest) (auto split: if_splits)
        moreover have "rest \<noteq> [] \<Longrightarrow> \<not> isUpper (hd rest)"
          unfolding rest_def using hd_dropWhile [of isUpper "u # r"] by blast
        ultimately have "rest = []" by blast
        then have "?next = []" by (simp add: FindAll_Nil)
        with n show False by simp
      qed
    next
      case (Cons b bs)
      with eq have "?next = bs @ (h, t) # (h', t') # after"
        by simp
      then show ?thesis
        by (rule "1.IH" [OF \<open>dropWhile (\<lambda>c. \<not> isUpper c) s = u # r\<close> rest_def])
    qed
  qed
qed

lemma drop_last: "h \<noteq> [] \<Longrightarrow> drop (length h - 1) h = [last h]"
proof -
  assume "h \<noteq> []"
  then have "h = butlast h @ [last h]" by simp
  then have "drop (length (butlast h)) h = drop (length (butlast h)) (butlast h @ [last h])"
    by simp
  then show ?thesis by simp
qed

lemma dbNameParts_spec:
  assumes "h \<noteq> []" and "\<forall>c \<in> set t. \<not> isUpper c"
  shows "dbNameParts (h, t) = map ToLower (spec_tokens (h, t))"
proof -
  have t: "ToLower t = t"
    using assms(2) by (rule ToLower_no_upper)
  have d: "drop (length h - 1) h = [last h]"
    using assms(1) by (rule drop_last)
  have b: "take (length h - 1) h = butlast h"
    by (simp add: butlast_conv_take)
  have l: "ToLower (last h # t) = ToLower [last h] @ t"
    using t by (simp add: ToLower_def)
  show ?thesis
  proof (cases "length h > 1 \<and> t \<noteq> []")
    case True
    then show ?thesis
      using d b l by (simp add: dbNameParts_def spec_tokens_def Let_def)
  next
    case False
    then show ?thesis
      by (auto simp add: dbNameParts_def spec_tokens_def Let_def ToLower_append t)
  qed
qed

lemma defaultDBName_refines: "defaultDBName s = spec_defaultDBName s"
proof -
  have eq: "map dbNameParts (fieldNameRe_FindAll s)
        = map (\<lambda>m. map ToLower (spec_tokens m)) (fieldNameRe_FindAll s)"
  proof (rule map_cong [OF refl])
    fix m assume "m \<in> set (fieldNameRe_FindAll s)"
    then show "dbNameParts m = map ToLower (spec_tokens m)"
      using FindAll_groups [of "fst m" "snd m" s] dbNameParts_spec [of "fst m" "snd m"]
      by simp
  qed
  show ?thesis
    unfolding defaultDBName_def spec_defaultDBName_def eq
    by (simp only: map_concat map_map comp_def)
qed

lemma defaultDBName_examples:
  "defaultDBName ''Foo'' = ''foo''"
  "defaultDBName ''FooBar'' = ''foo_bar''"
  "defaultDBName ''FooBarBaz'' = ''foo_bar_baz''"
  "defaultDBName ''JSON'' = ''json''"
  "defaultDBName ''JSONThing'' = ''json_thing''"
  "defaultDBName ''FooJSONThing'' = ''foo_json_thing''"
  "defaultDBName ''FooXBar'' = ''foo_x_bar''"
  by code_simp+

text \<open>
  Claim C4. The inference of a column name from a field name is a function of
  the field name that implements the tokenization of the specification (the
  runs of \<^verbatim>\<open>[A-Z]+\<close> with their tails, the last letter of a longer run with a
  non-empty tail starting the next token, every token in lower case, joined with
  underscores), and it maps \<^verbatim>\<open>Foo\<close>, \<^verbatim>\<open>FooBar\<close>, \<^verbatim>\<open>FooBarBaz\<close>, \<^verbatim>\<open>JSON\<close>,
  \<^verbatim>\<open>JSONThing\<close>, \<^verbatim>\<open>FooJSONThing\<close> and \<^verbatim>\<open>FooXBar\<close> to \<^verbatim>\<open>foo\<close>, \<^verbatim>\<open>foo_bar\<close>,
  \<^verbatim>\<open>foo_bar_baz\<close>, \<^verbatim>\<open>json\<close>, \<^verbatim>\<open>json_thing\<close>, \<^verbatim>\<open>foo_json_thing\<close> and \<^verbatim>\<open>foo_x_bar\<close>.
  The runs that are tokenized are non-empty runs of upper-case letters, each
  with a tail free of them, and put together they are the field name from its
  first upper-case letter on (lemma \<open>FindAll_maximal\<close>: no run stops early).
\<close>

theorem C4_defaultDBName_tokenization:
  "(\<forall>fieldName.
      defaultDBName fieldName = spec_defaultDBName fieldName
      \<and> concat (map (\<lambda>(run, tail). run @ tail) (fieldNameRe_FindAll fieldName))
          = dropWhile (\<lambda>c. \<not> isUpper c) fieldName
      \<and> list_all (\<lambda>(run, tail). run \<noteq> [] \<and> list_all isUpper run
                                  \<and> list_all (\<lambda>c. \<not> isUpper c) tail)
           (fieldNameRe_FindAll fieldName))
   \<and> defaultDBName ''Foo'' = ''foo''
   \<and> defaultDBName ''FooBar'' = ''foo_bar''
   \<and> defaultDBName ''FooBarBaz'' = ''foo_bar_baz''
   \<and> defaultDBName ''JSON'' = ''json''
   \<and> defaultDBName ''JSONThing'' = ''json_thing''
   \<and> defaultDBName ''FooJSONThing'' = ''foo_json_thing''
   \<and> defaultDBName ''FooXBar'' = ''foo_x_bar''"
proof -
  have "list_all (\<lambda>(run, tail). run \<noteq> [] \<and> list_all isUpper run
                                 \<and> list_all (\<lambda>c. \<not> isUpper c) tail)
          (fieldNameRe_FindAll fieldName)" for fieldName
    unfolding list_all_iff using FindAll_groups FindAll_heads by fastforce
  then show ?thesis
    using defaultDBName_refines FindAll_concat defaultDBName_examples by simp
qed

subsection \<open>The registry and the schema builder\<close>





lemma mapStruct_structType: "structType (snd (mapStruct ms fs nesting m)) = structType m"
  by (induction ms fs nesting m rule: mapStruct.induct)
     (auto simp: Let_def split: option.splits)

lemma rt0_simps [simp]:
  "ConvertibleTo rt0 t t"
  "ImplementsScanner rt0 t = False"
  "zeroPayload rt0 t = []"
  by (simp_all add: rt0_def convertible0_def)

lemma convertible0_stringSliceT [simp]:
  "\<not> ConvertibleTo rt0 stringSliceT timeT"
  "\<not> ConvertibleTo rt0 stringSliceT (PtrTo timeT)"
  "\<not> ConvertibleTo rt0 stringSliceT bytesT"
  "\<not> ConvertibleTo rt0 stringSliceT mapT"
  by (simp_all add: rt0_def convertible0_def stringSliceT_def timeT_def bytesT_def mapT_def
      jsonScannerT_def numericKind_def integerKind_def complexKind_def)

lemma find_intT:
  "find (\<lambda>mapper. Accepts mapper intT) (initMappers rt0) = Some (nativeMapper rt0)"
  by (simp add: initMappers_def RegisterMapper_def sqlScannerMapper_def nativeMapper_def
      rt0_def convertible0_def numericKind_def integerKind_def complexKind_def nativeAccepts_def intT_def)

lemma find_stringT:
  "find (\<lambda>mapper. Accepts mapper stringT) (initMappers rt0) = Some (nativeMapper rt0)"
  by (simp add: initMappers_def RegisterMapper_def sqlScannerMapper_def nativeMapper_def
      rt0_def convertible0_def numericKind_def integerKind_def complexKind_def nativeAccepts_def stringT_def)

lemma find_stringSliceT: "find (\<lambda>mapper. Accepts mapper stringSliceT) (initMappers rt0) = None"
  by (simp add: initMappers_def RegisterMapper_def sqlScannerMapper_def nativeMapper_def
      rt0_def convertible0_def numericKind_def integerKind_def complexKind_def nativeAccepts_def stringSliceT_def jsonMapper_def timeT_def bytesT_def mapT_def
      jsonScannerT_def)

lemma StructMapping_examples:
  "StructMapping (initMappers rt0) MyStructSwapped = Inr swappedMapping"
  "StructMapping (initMappers rt0) TwoEmbedded = Inr twoEmbeddedMapping"
  "StructMapping (initMappers rt0) HoldsTags = Inr tagsMapping"
  "StructMapping (initMappers rt0) Joined = Inr joinedMapping"
  "StructMapping (initMappers rt0) MyStructFoo = Inr fooMapping"
  by (simp_all add: StructMapping_def emptyMapping_def Let_def
      find_intT find_stringT find_stringSliceT defaultDBName_examples
      MyStructSwapped_def MyEmbeddedStruct_def swappedMapping_def
      TwoEmbedded_def OtherEmbeddedStruct_def twoEmbeddedMapping_def
      HoldsTags_def WithTags_def tagsMapping_def
      Joined_def User_def Post_def joinedMapping_def
      MyStructFoo_def fooMapping_def)



lemma walkedFields_Nil [simp]: "walkedFields [] = []"
  by (simp add: walkedFields_def)






lemma find_mapT:
  "find (\<lambda>mapper. Accepts mapper mapT) (initMappers rt0) = Some (jsonMapper rt0)"
proof -
  have "\<not> Accepts (sqlScannerMapper rt0) mapT"
    by (simp add: sqlScannerMapper_def rt0_def)
  moreover have "\<not> Accepts (nativeMapper rt0) mapT"
    by (simp add: nativeMapper_def nativeAccepts_def rt0_def convertible0_def mapT_def
        timeT_def bytesT_def jsonScannerT_def numericKind_def integerKind_def complexKind_def)
  moreover have "Accepts (jsonMapper rt0) mapT"
    by (simp add: jsonMapper_def rt0_def convertible0_def)
  ultimately show ?thesis
    by (simp add: initMappers_def RegisterMapper_def)
qed

text \<open>
  The Mapping keeps one Mapper for each Go field name. Where two fields that the
  walk reaches have the same name, the Mapper of the later one replaces that of
  the earlier one: the column \<^verbatim>\<open>meta_id\<close> below resolves to the name \<^verbatim>\<open>ID\<close>, whose
  Mapper is the one chosen for the \<^verbatim>\<open>int\<close> field of \<^verbatim>\<open>Post\<close>.
\<close>

lemma StructMapping_name_clash:
  "StructMapping (initMappers rt0) MetaPost =
     Inr \<lparr>structType = MetaPost,
          dbToStruct = [''meta_id'' \<mapsto> ''ID'', ''post_id'' \<mapsto> ''ID''],
          mapping = [''ID'' \<mapsto> nativeMapper rt0],
          scanNesting = [''ID'' \<mapsto> [''Post'']]\<rparr>"
  by (simp add: StructMapping_def emptyMapping_def Let_def find_mapT find_intT
      MetaPost_def Meta_def Post_def)



text \<open>
  Claim C1. A struct type with two fields that resolve to the same column name,
  at any depth of embedding, gets a duplicate-column error and no Mapping from
  \<^verbatim>\<open>StructMapping\<close>. The code does not do this: \<^verbatim>\<open>mapStruct\<close> drops the error of its
  call for an embedded struct. With the field \<^verbatim>\<open>Bar\<close> of
  \<^verbatim>\<open>TestDuplicateMappingEmbedded\<close> declared before the embedded struct, and with
  two embedded structs that both name the column \<^verbatim>\<open>foo\<close>, \<^verbatim>\<open>StructMapping\<close> returns
  a Mapping and no error.
\<close>

theorem C1_duplicate_in_embedded_struct_is_dropped:
  "StructMapping (initMappers rt0) MyStructSwapped = Inr swappedMapping
   \<and> StructMapping (initMappers rt0) TwoEmbedded = Inr twoEmbeddedMapping
   \<and> dbToStruct swappedMapping ''foo'' = Some ''Bar''
   \<and> dbToStruct twoEmbeddedMapping ''foo'' = Some ''Foo''"
  by (simp add: StructMapping_examples swappedMapping_def twoEmbeddedMapping_def)

subsection \<open>Scanning a row: placeholders and stores\<close>

lemma TypeOf_zero [simp]: "TypeOf (zero rt t) = t"
  by (cases t) simp_all

lemma receivers_length: "receivers m tarval cols = Some scan \<Longrightarrow> length scan = length cols"
  by (induction cols arbitrary: scan)
     (auto split: option.splits receiver.splits)

lemma receivers_unknown:
  "receivers m tarval cols = Some scan \<Longrightarrow> i < length cols \<Longrightarrow>
   dbToStruct m (cols ! i) = None \<Longrightarrow> scan ! i = None"
proof (induction cols arbitrary: scan i)
  case Nil
  then show ?case by simp
next
  case (Cons col cols)
  show ?case
  proof (cases i)
    case 0
    with Cons.prems show ?thesis by auto
  next
    case (Suc j)
    with Cons.prems obtain s scan' where "scan = s # scan'" "receivers m tarval cols = Some scan'"
      by (auto split: option.splits receiver.splits)
    with Cons.IH [of scan' j] Cons.prems Suc show ?thesis by simp
  qed
qed

lemma applyWrites_nil_place:
  "i < length scan \<Longrightarrow> scan ! i = None \<Longrightarrow>
   applyWrites (ws[i := w]) scan tarval = applyWrites ws scan tarval"
proof (induction scan arbitrary: ws i tarval)
  case Nil
  then show ?case by simp
next
  case (Cons s ss)
  show ?case
  proof (cases ws)
    case Nil
    then show ?thesis by simp
  next
    case ws: (Cons w' ws')
    show ?thesis
    proof (cases i)
      case 0
      with Cons.prems ws show ?thesis by simp
    next
      case (Suc j)
      with Cons.prems have "applyWrites (ws'[j := w]) ss t1 = applyWrites ws' ss t1" for t1
        using Cons.IH [of j ws' t1] by simp
      then show ?thesis
        using Suc ws by (simp split: prod.splits)
    qed
  qed
qed

lemma applyWrites_length: "length (snd (applyWrites ws scan tarval)) = length scan"
  by (induction ws scan tarval rule: applyWrites.induct) (auto split: prod.splits)

text \<open>
  For a name of \<^verbatim>\<open>scanOrder\<close> that the Mapping does not know, \<^verbatim>\<open>ScanRow\<close> asks no
  Mapper for a placeholder and hands the row's \<^verbatim>\<open>Scan\<close> a nil in its place. When
  \<^verbatim>\<open>ScanRow\<close> returns, its error is that of the target's type or comes from an
  error of the row's \<^verbatim>\<open>Scan\<close>, and whatever the row would store in the place of
  the unknown name changes neither the error nor the target.
\<close>

lemma ScanRow_unknown_column_gets_nil:
  assumes "i < length scanOrder"
    and "dbToStruct m (scanOrder ! i) = None"
    and "ScanRow rt m target row scanOrder = Return (err, target')"
  shows "err = Some (NotConvertible (structType m) (TypeOf target))
         \<or> (\<exists>scan e ws.
               receivers m target scanOrder = Some scan \<and> scan ! i = None
               \<and> row (map (pointee target) scan) = RowReturn e ws
               \<and> (err \<noteq> None \<longrightarrow> e \<noteq> None)
               \<and> (\<forall>w. ScanRow rt m target (\<lambda>dest. withWrite i w (row dest)) scanOrder
                        = Return (err, target')))"
proof (cases "ConvertibleTo rt (structType m) (TypeOf target)")
  case False
  with assms(3) show ?thesis by (auto simp: ScanRow_def)
next
  case True
  from assms(3) True obtain scan where scan: "receivers m target scanOrder = Some scan"
    by (auto simp: ScanRow_def split: option.splits)
  have nil: "scan ! i = None"
    using scan assms(1,2) by (rule receivers_unknown)
  have len: "i < length scan"
    using receivers_length [OF scan] assms(1) by simp
  from assms(3) True scan obtain e ws where row: "row (map (pointee target) scan) = RowReturn e ws"
    by (auto simp: ScanRow_def split: scanned.splits)
  have same: "applyWrites (ws[i := w]) scan target = applyWrites ws scan target" for w
    using len nil by (rule applyWrites_nil_place)
  have e: "err \<noteq> None \<longrightarrow> e \<noteq> None"
    using assms(3) True scan row
    by (auto simp: ScanRow_def split: prod.splits option.splits)
  have w: "\<forall>w. ScanRow rt m target (\<lambda>dest. withWrite i w (row dest)) scanOrder
                 = Return (err, target')"
    using assms(3) True scan row same
    by (simp add: ScanRow_def)
  show ?thesis
    by (intro disjI2 exI [of _ scan] exI [of _ e] exI [of _ ws] conjI scan nil row e w)
qed

lemma Cols_example:
  "Cols [(''foo'', stringT, ''bar''), (''aaa'', intT, ''1'')] = [''aaa'', ''foo'']"
  by code_simp

lemma ScanRow_nil_rejected:
  "ScanRow rt0 fooMapping (zero rt0 MyStructFoo)
        (testRow_Scan rt0 [(''foo'', stringT, ''bar''), (''aaa'', intT, ''1'')])
        [''aaa'', ''foo'']
      = Return (Some (Foreign (''receiving column '' @ quoted ''aaa'' @ '' is nil'')), zero rt0 MyStructFoo)"
  by (simp add: Cols_example ScanRow_def rt0_def convertible0_def numericKind_def integerKind_def complexKind_def fooMapping_def
      MyStructFoo_def nativeMapper_def testRow_Scan_def quoted_def rowScanIndexRe_matchAt_def)

lemma ScanRow_tolerant_example:
  "ScanRow rt0 fooMapping (zero rt0 MyStructFoo)
     (\<lambda>dest. RowReturn None [Some ''1'', Some ''bar'']) [''aaa'', ''foo'']
   = Return (None, StructV MyStructFoo [FieldV ''Foo'' (Val stringT ''bar'')])"
  by (simp add: ScanRow_def rt0_def convertible0_def numericKind_def integerKind_def complexKind_def fooMapping_def MyStructFoo_def nativeMapper_def storeAt_def)

text \<open>\<^verbatim>\<open>testRow.Scan\<close> returns an error when one of the placeholders is nil.\<close>

lemma testRow_loop_nil:
  "i < length cols \<Longrightarrow> i < length dat \<Longrightarrow> dat ! i = None \<Longrightarrow>
   (case testRow_loop rt row cols dat of
      RowPanic \<Rightarrow> True
    | RowReturn err ws \<Rightarrow> err \<noteq> None)"
proof (induction cols arbitrary: dat i)
  case Nil
  then show ?case by simp
next
  case (Cons col cols)
  from Cons.prems obtain d dat' where dat: "dat = d # dat'"
    by (cases dat) auto
  show ?case
  proof (cases d)
    case None
    with dat show ?thesis by simp
  next
    case (Some tar)
    with Cons.prems dat obtain j where i: "i = Suc j"
      by (cases i) auto
    with Cons.prems dat
    have "case testRow_loop rt row cols dat' of
            RowPanic \<Rightarrow> True
          | RowReturn err ws \<Rightarrow> err \<noteq> None"
      using Cons.IH [of j dat'] by simp
    then show ?thesis
      using dat Some by (auto split: option.splits scanned.splits)
  qed
qed

text \<open>
  Claim C2. For every Mapping and every row, \<^verbatim>\<open>ScanRow\<close> with a \<^verbatim>\<open>scanOrder\<close> that
  holds a column name which the Mapping does not know completes without an
  error caused by that column: the column is ignored. The code does not do
  this. Both loops of \<^verbatim>\<open>ScanRow\<close> pass over the unknown name, but the first one
  leaves a nil in its place among the placeholders, all of which go to the row's
  \<^verbatim>\<open>Scan\<close>; \<^verbatim>\<open>testRow.Scan\<close> returns an error for a nil placeholder. So \<^verbatim>\<open>ScanRow\<close>
  over the columns of a \<^verbatim>\<open>testRow\<close>, one of which the Mapping does not know, never
  returns without an error, whatever the Mapping, the row and the target.
\<close>

theorem C2_unknown_column_fails_the_scan:
  assumes "c \<in> set (Cols row)" and "dbToStruct m c = None"
  shows "ScanRow rt m target (testRow_Scan rt row) (Cols row) \<noteq> Return (None, target')"
proof
  assume ret: "ScanRow rt m target (testRow_Scan rt row) (Cols row) = Return (None, target')"
  from assms(1) obtain i where i: "i < length (Cols row)" "Cols row ! i = c"
    by (auto simp: in_set_conv_nth)
  have conv: "ConvertibleTo rt (structType m) (TypeOf target)"
    using ret by (auto simp: ScanRow_def split: if_splits)
  from ret conv obtain scan where scan: "receivers m target (Cols row) = Some scan"
    by (auto simp: ScanRow_def split: option.splits)
  have nil: "scan ! i = None"
    using scan i assms(2) by (auto intro: receivers_unknown)
  have len: "length scan = length (Cols row)"
    using scan by (rule receivers_length)
  from ret conv scan obtain ws
    where "testRow_Scan rt row (map (pointee target) scan) = RowReturn None ws"
    by (auto simp: ScanRow_def Let_def split: scanned.splits option.splits prod.splits if_splits)
  moreover have "case testRow_loop rt row (Cols row) (map (pointee target) scan) of
                   RowPanic \<Rightarrow> True
                 | RowReturn err ws \<Rightarrow> err \<noteq> None"
    using i(1) len nil by (intro testRow_loop_nil [of i]) simp_all
  ultimately show False
    by (simp add: testRow_Scan_def)
qed

text \<open>
  The struct is that of \<^verbatim>\<open>TestDefaultNameMapping\<close>, the row has the columns \<^verbatim>\<open>foo\<close>
  and \<^verbatim>\<open>aaa\<close>, and \<^verbatim>\<open>scanOrder\<close> is \<^verbatim>\<open>row.Cols()\<close>: \<^verbatim>\<open>ScanRow\<close> returns the error of
  \<^verbatim>\<open>testRow.Scan\<close> and stores nothing.
\<close>

theorem C2_unknown_column_fails_the_scan_witness:
  "StructMapping (initMappers rt0) MyStructFoo = Inr fooMapping
   \<and> dbToStruct fooMapping ''aaa'' = None
   \<and> Cols [(''foo'', stringT, ''bar''), (''aaa'', intT, ''1'')] = [''aaa'', ''foo'']
   \<and> ScanRow rt0 fooMapping (zero rt0 MyStructFoo)
        (testRow_Scan rt0 [(''foo'', stringT, ''bar''), (''aaa'', intT, ''1'')])
        [''aaa'', ''foo'']
      = Return (Some (Foreign (''receiving column '' @ quoted ''aaa'' @ '' is nil'')),
                zero rt0 MyStructFoo)
   \<and> ScanRow rt0 fooMapping (zero rt0 MyStructFoo)
        (testRow_Scan rt0 [(''foo'', stringT, ''bar''), (''aaa'', intT, ''1'')])
        [''aaa'', ''foo'']
      \<noteq> Return (None, StructV MyStructFoo [FieldV ''Foo'' (Val stringT ''bar'')])"
proof -
  let ?row = "[(''foo'', stringT, ''bar''), (''aaa'', intT, ''1'')]"
  have unknown: "dbToStruct fooMapping ''aaa'' = None"
    by (simp add: fooMapping_def)
  have "''aaa'' \<in> set (Cols ?row)"
    by (simp add: Cols_example)
  then have "ScanRow rt0 fooMapping (zero rt0 MyStructFoo) (testRow_Scan rt0 ?row) (Cols ?row)
        \<noteq> Return (None, StructV MyStructFoo [FieldV ''Foo'' (Val stringT ''bar'')])"
    using unknown by (rule C2_unknown_column_fails_the_scan)
  then have "ScanRow rt0 fooMapping (zero rt0 MyStructFoo) (testRow_Scan rt0 ?row) [''aaa'', ''foo'']
        \<noteq> Return (None, StructV MyStructFoo [FieldV ''Foo'' (Val stringT ''bar'')])"
    unfolding Cols_example .
  then show ?thesis
    using StructMapping_examples(5) Cols_example ScanRow_nil_rejected unknown
    by (intro conjI)
qed

lemma matchAt_shape:
  assumes "rowScanIndexRe_matchAt s = Some (digits, msg)"
  shows "s = ''index '' @ digits @ '': '' @ msg \<and> digits \<noteq> [] \<and> (\<forall>c \<in> set digits. isDigit c)
         \<and> msg \<noteq> [] \<and> CHR 0x0A \<notin> set msg"
proof -
  let ?r = "drop 6 s"
  from assms have p: "take 6 s = ''index ''"
    and d: "digits = takeWhile isDigit ?r"
    and two: "take 2 (dropWhile isDigit ?r) = '': ''"
    and m: "msg = drop 2 (dropWhile isDigit ?r)"
    and rest: "digits \<noteq> []" "msg \<noteq> []" "CHR 0x0A \<notin> set msg"
    by (auto simp: rowScanIndexRe_matchAt_def Let_def split: if_splits)
  have "s = take 6 s @ ?r"
    by simp
  also have "?r = takeWhile isDigit ?r @ dropWhile isDigit ?r"
    by simp
  also have "dropWhile isDigit ?r = take 2 (dropWhile isDigit ?r) @ drop 2 (dropWhile isDigit ?r)"
    by simp
  finally have "s = ''index '' @ digits @ '': '' @ msg"
    using p d two m by simp
  moreover have "\<forall>c \<in> set digits. isDigit c"
    unfolding d by (auto dest: set_takeWhileD)
  ultimately show ?thesis
    using rest by simp
qed

lemma FindStringSubmatch_shape:
  "rowScanIndexRe_FindStringSubmatch s = Some (digits, msg) \<Longrightarrow>
   \<exists>before. s = before @ ''index '' @ digits @ '': '' @ msg \<and> digits \<noteq> []
            \<and> (\<forall>c \<in> set digits. isDigit c) \<and> msg \<noteq> [] \<and> CHR 0x0A \<notin> set msg"
proof (induction s)
  case Nil
  then show ?case by simp
next
  case (Cons c cs)
  show ?case
  proof (cases "rowScanIndexRe_matchAt (c # cs)")
    case None
    with Cons obtain before where "cs = before @ ''index '' @ digits @ '': '' @ msg"
      "digits \<noteq> []" "\<forall>c \<in> set digits. isDigit c" "msg \<noteq> []" "CHR 0x0A \<notin> set msg"
      by auto
    then show ?thesis
      by (intro exI [of _ "c # before"]) simp
  next
    case (Some a)
    with Cons.prems have "rowScanIndexRe_matchAt (c # cs) = Some (digits, msg)"
      by simp
    from matchAt_shape [OF this] show ?thesis
      by (intro exI [of _ "[]"]) simp
  qed
qed

lemma ScanRow_row_error:
  assumes "ConvertibleTo rt (structType m) (TypeOf target)"
    and "receivers m target scanOrder = Some scan"
    and "row (map (pointee target) scan) = RowReturn (Some text') ws"
    and "applyWrites ws scan target = (target1, scan1)"
  shows "ScanRow rt m target row scanOrder =
     (case rowScanIndexRe_FindStringSubmatch text' of
        None \<Rightarrow> Return (Some (Foreign text'), target1)
      | Some (digits, msg) \<Rightarrow>
          if Atoi digits < length scanOrder
          then Return (Some (ScanError (Atoi digits) msg (recvType target1 (scan1 ! Atoi digits))),
                       target1)
          else Panic)"
proof -
  have "length scan1 = length scanOrder"
    using applyWrites_length [of ws scan target] assms(4) receivers_length [OF assms(2)]
    by simp
  then show ?thesis
    using assms by (simp add: ScanRow_def Let_def split: option.splits)
qed

lemma FindStringSubmatch_example:
  "rowScanIndexRe_FindStringSubmatch ''index 5: boom'' = Some (''5'', ''boom'')"
  by (simp add: rowScanIndexRe_matchAt_def isDigit_def)

lemma ScanRow_index_examples:
  "ScanRow rt0 fooMapping (zero rt0 MyStructFoo) (failingRow ''index 5: boom'') [''foo'']
      = Panic"
  "ScanRow rt0 fooMapping (zero rt0 MyStructFoo) (failingRow ''index 0: boom'') [''foo'']
      = Return (Some (ScanError 0 ''boom'' (Some (PtrTo stringT))), zero rt0 MyStructFoo)"
  by (simp_all add: ScanRow_def rt0_def convertible0_def numericKind_def integerKind_def complexKind_def fooMapping_def MyStructFoo_def
      nativeMapper_def failingRow_def rowScanIndexRe_matchAt_def isDigit_def Atoi_def)

text \<open>
  Claim C7. When the error of the row's \<^verbatim>\<open>Scan\<close> matches \<^verbatim>\<open>index N: message\<close>,
  \<^verbatim>\<open>ScanRow\<close> returns an error with that index, the message and the type of the
  receiver at that index; any other error it returns unchanged. The code does
  this only for an index below the number of placeholders: it reads
  \<^verbatim>\<open>scan[index]\<close> unchecked, and panics for the error text \<^verbatim>\<open>index 5: boom\<close> and
  one placeholder.
\<close>

theorem C7_index_past_the_placeholders_panics:
  "StructMapping (initMappers rt0) MyStructFoo = Inr fooMapping
   \<and> rowScanIndexRe_FindStringSubmatch ''index 5: boom'' = Some (''5'', ''boom'')
   \<and> ScanRow rt0 fooMapping (zero rt0 MyStructFoo) (failingRow ''index 5: boom'') [''foo'']
      = Panic
   \<and> ScanRow rt0 fooMapping (zero rt0 MyStructFoo) (failingRow ''index 0: boom'') [''foo'']
      = Return (Some (ScanError 0 ''boom'' (Some (PtrTo stringT))), zero rt0 MyStructFoo)"
  using StructMapping_examples(5) FindStringSubmatch_example ScanRow_index_examples by simp

lemma ScanRow_tags_panics: "ScanRow rt0 tagsMapping (zero rt0 HoldsTags) row [''tags''] = Panic"
  by (simp add: ScanRow_def rt0_def convertible0_def numericKind_def integerKind_def complexKind_def tagsMapping_def HoldsTags_def WithTags_def)

text \<open>
  Claim C9. In a Mapping that \<^verbatim>\<open>StructMapping\<close> returns with a nil error, every
  column of \<^verbatim>\<open>dbToStruct\<close> leads to a field name that has a Mapper and a nesting
  resolver, so that \<^verbatim>\<open>ScanRow\<close> meets no nil Mapper or resolver. The code breaks
  this: the error for a field that no Mapper accepts is dropped when the field
  is in an embedded struct, after \<^verbatim>\<open>dbToStruct\<close> and \<^verbatim>\<open>scanNesting\<close> were written,
  and \<^verbatim>\<open>ScanRow\<close> panics on the column.
\<close>

theorem C9_unsupported_field_in_embedded_struct:
  "StructMapping (initMappers rt0) HoldsTags = Inr tagsMapping
   \<and> dbToStruct tagsMapping ''tags'' = Some ''Tags''
   \<and> mapping tagsMapping ''Tags'' = None
   \<and> ScanRow rt0 tagsMapping (zero rt0 HoldsTags) row [''tags''] = Panic"
proof -
  have "dbToStruct tagsMapping ''tags'' = Some ''Tags''" "mapping tagsMapping ''Tags'' = None"
    by (simp_all add: tagsMapping_def)
  then show ?thesis
    using StructMapping_examples(3) ScanRow_tags_panics by simp
qed

text \<open>
  What \<^verbatim>\<open>ScanRow\<close> leaves alone: every place of the target apart from the
  fields that the Mapping resolves for the names in \<^verbatim>\<open>scanOrder\<close>.
\<close>

lemma lookupField_assignFields_other:
  "n' \<noteq> n \<Longrightarrow> lookupField (assignFields n p v fvs) n' = lookupField fvs n'"
  by (induction fvs) simp_all

lemma lookupField_assignFields_same:
  "lookupField (assignFields n p v fvs) n = map_option (assign p v) (lookupField fvs n)"
  by (induction fvs) simp_all

lemma valueAt_assign_prefix:
  "\<not> prefix p q \<Longrightarrow> \<not> prefix q p \<Longrightarrow> valueAt q (assign p v t) = valueAt q t"
proof (induction p arbitrary: q t)
  case Nil
  then show ?case by simp
next
  case (Cons n p)
  from Cons.prems obtain n' q' where q: "q = n' # q'"
    by (cases q) auto
  show ?case
  proof (cases t)
    case (Val ty x)
    then show ?thesis by simp
  next
    case (StructV ty fvs)
    show ?thesis
    proof (cases "n' = n")
      case False
      then show ?thesis
        using q StructV by (simp add: lookupField_assignFields_other)
    next
      case True
      with Cons.prems q have "\<not> prefix p q'" "\<not> prefix q' p"
        by simp_all
      then have "valueAt q' (assign p v w) = valueAt q' w" for w
        by (rule Cons.IH)
      then show ?thesis
        using q StructV True
        by (simp add: lookupField_assignFields_same split: option.splits)
    qed
  qed
qed

lemma valueAt_assign_apart: "apart p q \<Longrightarrow> valueAt q (assign p v t) = valueAt q t"
  unfolding apart_def by (simp add: valueAt_assign_prefix)

lemma valueAt_storeAt_apart: "apart p q \<Longrightarrow> valueAt q (storeAt p x t) = valueAt q t"
  by (simp add: storeAt_def valueAt_assign_apart split: option.splits)

lemma applyWrites_frame:
  assumes "\<And>nesting name. Some (ToField nesting name) \<in> set scan \<Longrightarrow>
             apart (nesting @ [name]) q"
  shows "valueAt q (fst (applyWrites ws scan t)) = valueAt q t"
  using assms
proof (induction scan arbitrary: ws t)
  case Nil
  then show ?case by (cases ws) simp_all
next
  case (Cons s ss)
  show ?case
  proof (cases ws)
    case Nil
    then show ?thesis by simp
  next
    case ws: (Cons w ws')
    have one: "valueAt q (fst (writeOne w s t)) = valueAt q t"
    proof (cases "w")
      case None
      then show ?thesis by simp
    next
      case (Some x)
      show ?thesis
      proof (cases s)
        case None
        then show ?thesis using Some by simp
      next
        case s: (Some sl)
        show ?thesis
        proof (cases sl)
          case (ToField nesting name)
          with s Cons.prems [of nesting name] Some show ?thesis
            by (simp add: valueAt_storeAt_apart)
        next
          case (Cell c)
          with s Some show ?thesis by simp
        qed
      qed
    qed
    have "valueAt q (fst (applyWrites ws' ss t1)) = valueAt q t1" for t1
      using Cons.IH [of ws' t1] Cons.prems by simp
    then show ?thesis
      using ws one by (simp split: prod.splits) (metis fst_conv)
  qed
qed

lemma receivers_slots:
  "receivers m tarval cols = Some scan \<Longrightarrow> Some (ToField nesting name) \<in> set scan \<Longrightarrow>
   \<exists>c \<in> set cols. dbToStruct m c = Some name \<and> scanNesting m name = Some nesting"
proof (induction cols arbitrary: scan)
  case Nil
  then show ?case by simp
next
  case (Cons col cols)
  from Cons.prems(1) obtain s scan' where scan: "scan = s # scan'"
    and rest: "receivers m tarval cols = Some scan'"
    and s: "s = Some (ToField nesting name) \<Longrightarrow>
            dbToStruct m col = Some name \<and> scanNesting m name = Some nesting"
    by (auto split: option.splits receiver.splits)
  from Cons.prems(2) scan
  consider "s = Some (ToField nesting name)" | "Some (ToField nesting name) \<in> set scan'"
    by auto
  then show ?case
  proof cases
    case 1
    with s show ?thesis by simp
  next
    case 2
    with Cons.IH [OF rest] show ?thesis by auto
  qed
qed

lemma copyAll_frame:
  assumes "copyAll m zs t = Some t'"
    and "\<And>c name nesting. c \<in> fst ` set zs \<Longrightarrow> dbToStruct m c = Some name \<Longrightarrow>
           scanNesting m name = Some nesting \<Longrightarrow>
           apart (nesting @ [name]) q"
  shows "valueAt q t' = valueAt q t"
  using assms
proof (induction zs arbitrary: t)
  case Nil
  then show ?case by simp
next
  case (Cons z zs)
  obtain col s where z: "z = (col, s)"
    by (cases z)
  have later: "\<And>c name nesting. c \<in> fst ` set zs \<Longrightarrow> dbToStruct m c = Some name \<Longrightarrow>
           scanNesting m name = Some nesting \<Longrightarrow>
           apart (nesting @ [name]) q"
    using Cons.prems(2) by auto
  show ?case
  proof (cases "dbToStruct m col")
    case None
    with Cons.prems(1) z have "copyAll m zs t = Some t'"
      by simp
    then show ?thesis
      using later by (rule Cons.IH)
  next
    case (Some name)
    with Cons.prems(1) z obtain nesting v
      where nest: "scanNesting m name = Some nesting"
        and next': "copyAll m zs (assign (nesting @ [name]) v t) = Some t'"
      by (auto split: option.splits)
    have apart: "apart (nesting @ [name]) q"
      using Cons.prems(2) [of col name nesting] Some nest z by simp
    have "valueAt q t' = valueAt q (assign (nesting @ [name]) v t)"
      using next' later by (rule Cons.IH)
    then show ?thesis
      using apart by (simp add: valueAt_assign_apart)
  qed
qed

lemma ScanRow_frame:
  assumes "ScanRow rt m target row scanOrder = Return (err, target')"
    and "\<And>c name nesting. c \<in> set scanOrder \<Longrightarrow> dbToStruct m c = Some name \<Longrightarrow>
           scanNesting m name = Some nesting \<Longrightarrow>
           apart (nesting @ [name]) q"
  shows "valueAt q target' = valueAt q target"
proof (cases "ConvertibleTo rt (structType m) (TypeOf target)")
  case False
  with assms(1) show ?thesis by (auto simp: ScanRow_def)
next
  case True
  from assms(1) True obtain scan where scan: "receivers m target scanOrder = Some scan"
    by (auto simp: ScanRow_def split: option.splits)
  from assms(1) True scan obtain e ws where row: "row (map (pointee target) scan) = RowReturn e ws"
    by (auto simp: ScanRow_def split: scanned.splits)
  obtain target1 scan1 where aw: "applyWrites ws scan target = (target1, scan1)"
    by (cases "applyWrites ws scan target")
  have "\<And>nesting name. Some (ToField nesting name) \<in> set scan \<Longrightarrow>
          apart (nesting @ [name]) q"
    using receivers_slots [OF scan] assms(2) by blast
  then have "valueAt q (fst (applyWrites ws scan target)) = valueAt q target"
    by (rule applyWrites_frame)
  then have t1: "valueAt q target1 = valueAt q target"
    using aw by simp
  show ?thesis
  proof (cases e)
    case (Some text')
    with assms(1) True scan row aw have "target' = target1"
      by (auto simp: ScanRow_def Let_def split: option.splits if_splits)
    with t1 show ?thesis by simp
  next
    case None
    with assms(1) True scan row aw
    have c: "copyAll m (zip scanOrder scan1) target1 = Some target'"
      by (auto simp: ScanRow_def split: option.splits)
    have "valueAt q target' = valueAt q target1"
      using c
    proof (rule copyAll_frame)
      fix c name nesting
      assume "c \<in> fst ` set (zip scanOrder scan1)"
      then have "c \<in> set scanOrder"
        by (auto dest: set_zip_leftD)
      then show "dbToStruct m c = Some name \<Longrightarrow> scanNesting m name = Some nesting \<Longrightarrow>
           apart (nesting @ [name]) q"
        by (rule assms(2))
    qed
    with t1 show ?thesis by simp
  qed
qed

lemma zero_Joined:
  "zero rt0 Joined
      = StructV Joined [FieldV ''User'' (StructV User [FieldV ''ID'' (Val intT [])]),
                         FieldV ''Post'' (StructV Post [FieldV ''ID'' (Val intT [])])]"
  by (simp add: rt0_def convertible0_def numericKind_def integerKind_def complexKind_def Joined_def User_def Post_def intT_def)

lemma ScanRow_joined:
  "ScanRow rt0 joinedMapping (zero rt0 Joined)
     (testRow_Scan rt0 [(''user_id'', intT, ''7'')]) [''user_id'']
      = Return (None,
          StructV Joined [FieldV ''User'' (StructV User [FieldV ''ID'' (Val intT [])]),
                           FieldV ''Post'' (StructV Post [FieldV ''ID'' (Val intT ''7'')])])"
  by (simp add: ScanRow_def rt0_def convertible0_def numericKind_def integerKind_def complexKind_def joinedMapping_def Joined_def User_def
      Post_def nativeMapper_def testRow_Scan_def Cols_def storeAt_def intT_def)

text \<open>
  Claim C10. After a successful \<^verbatim>\<open>ScanRow\<close>, every field whose column name is
  not in \<^verbatim>\<open>scanOrder\<close> has the value it had before. The code breaks this when
  two mapped fields have the same Go name: \<^verbatim>\<open>mapping\<close> and \<^verbatim>\<open>scanNesting\<close> have
  one entry for both. With \<^verbatim>\<open>scanOrder = ["user_id"]\<close> the value of that column is
  stored in the field \<^verbatim>\<open>Post.ID\<close>, whose column is \<^verbatim>\<open>post_id\<close>, and the field
  \<^verbatim>\<open>User.ID\<close> of that column keeps its value.
\<close>

theorem C10_write_lands_in_the_field_of_another_column:
  "StructMapping (initMappers rt0) Joined = Inr joinedMapping
   \<and> zero rt0 Joined
      = StructV Joined [FieldV ''User'' (StructV User [FieldV ''ID'' (Val intT [])]),
                         FieldV ''Post'' (StructV Post [FieldV ''ID'' (Val intT [])])]
   \<and> ScanRow rt0 joinedMapping (zero rt0 Joined)
        (testRow_Scan rt0 [(''user_id'', intT, ''7'')]) [''user_id'']
      = Return (None,
          StructV Joined [FieldV ''User'' (StructV User [FieldV ''ID'' (Val intT [])]),
                           FieldV ''Post'' (StructV Post [FieldV ''ID'' (Val intT ''7'')])])"
  using StructMapping_examples(4) zero_Joined ScanRow_joined by simp

subsection \<open>Cursors: ScanOne and ScanAll\<close>

lemma Next_empty: "pending rows = [] \<Longrightarrow> Next rows = (False, rows\<lparr>current := None\<rparr>)"
  by (simp add: Next_def)

lemma Next_row:
  "pending rows = r # rs \<Longrightarrow> Next rows = (True, rows\<lparr>pending := rs, current := Some r\<rparr>)"
  by (simp add: Next_def)

text \<open>
  Claim C6. For a cursor with no rows whose \<^verbatim>\<open>Columns\<close> succeeds, \<^verbatim>\<open>ScanOne\<close>
  returns \<^verbatim>\<open>(false, nil)\<close>, leaves the target as it was, and has closed the
  cursor (once) when it returns.
\<close>

theorem C6_ScanOne_empty_cursor:
  assumes "columns rows = Inr cols" and "pending rows = []"
  shows "ScanOne rt m target rows
         = Return ((False, None), target,
                   rows\<lparr>current := None, closed := Suc (closed rows)\<rparr>)"
  using assms by (simp add: ScanOne_def Next_empty Close_def)

theorem C6_ScanOne_empty_cursor_witness:
  "ScanOne rt0 fooMapping (zero rt0 MyStructFoo) (cursorOf [] [])
   = Return ((False, None), zero rt0 MyStructFoo,
             \<lparr>columns = Inr [], pending = [], current = None, lastErr = None, closed = 1\<rparr>)"
proof -
  have 1: "columns (cursorOf [] [] :: string Rows) = Inr []"
    by (simp add: cursorOf_def)
  have 2: "pending (cursorOf [] [] :: string Rows) = []"
    by (simp add: cursorOf_def)
  show ?thesis
    using C6_ScanOne_empty_cursor [OF 1 2, of rt0 fooMapping "zero rt0 MyStructFoo"]
    by (simp add: cursorOf_def)
qed

lemma collect_failed:
  "collect (map Scanned scans @ Failed err # elems) slice = (None, Some err)"
  by (induction scans arbitrary: slice) simp_all

lemma streamLoop_failed:
  assumes "pending rows = before @ r # after"
    and "\<forall>p \<in> set before. \<exists>scan. ScanRow rt m (zero rt (structType m)) p cols = Return (None, scan)"
    and "ScanRow rt m (zero rt (structType m)) r cols = Return (Some err, scan')"
  shows "\<exists>scans rows'. streamLoop rt m cols rows = Return (map Scanned scans @ [Failed err], rows')"
  using assms
proof (induction before arbitrary: rows)
  case Nil
  then have "Next rows = (True, rows\<lparr>pending := after, current := Some r\<rparr>)"
    by (simp add: Next_row)
  then have "streamLoop rt m cols rows
             = Return ([Failed err], rows\<lparr>pending := after, current := Some r\<rparr>)"
    using Nil.prems(3) by (simp add: streamLoop.simps [of rt m cols rows] Rows_Scan_def)
  then show ?case
    by (intro exI [of _ "[]"] exI) simp
next
  case (Cons p before)
  let ?rows1 = "rows\<lparr>pending := before @ r # after, current := Some p\<rparr>"
  have nxt: "Next rows = (True, ?rows1)"
    using Cons.prems(1) by (simp add: Next_row)
  from Cons.prems(2) obtain scan
    where p: "ScanRow rt m (zero rt (structType m)) p cols = Return (None, scan)"
    by auto
  have "pending ?rows1 = before @ r # after"
    by simp
  moreover have "\<forall>q \<in> set before.
      \<exists>scan. ScanRow rt m (zero rt (structType m)) q cols = Return (None, scan)"
    using Cons.prems(2) by simp
  ultimately obtain scans rows'
    where rest: "streamLoop rt m cols ?rows1 = Return (map Scanned scans @ [Failed err], rows')"
    using Cons.IH [of ?rows1] Cons.prems(3) by blast
  have "streamLoop rt m cols rows = Return (map Scanned (scan # scans) @ [Failed err], rows')"
    using nxt p rest by (simp add: streamLoop.simps [of rt m cols rows] Rows_Scan_def)
  then show ?case
    by blast
qed

text \<open>
  Claim C3. When the scan of row K of a cursor fails, after the rows before it
  were scanned without error, \<^verbatim>\<open>ScanAll\<close> returns that error and a nil slice:
  none of the K-1 rows scanned before.
\<close>

theorem C3_ScanAll_returns_no_rows_on_error:
  assumes "columns rows = Inr cols"
    and "pending rows = before @ r # after"
    and "\<forall>p \<in> set before. \<exists>scan. ScanRow rt m (zero rt (structType m)) p cols = Return (None, scan)"
    and "ScanRow rt m (zero rt (structType m)) r cols = Return (Some err, scan')"
  shows "ScanAll rt m rows = Return (None, Some err)"
proof -
  obtain scans rows'
    where "streamLoop rt m cols rows = Return (map Scanned scans @ [Failed err], rows')"
    using streamLoop_failed [OF assms(2,3,4)] by blast
  then show ?thesis
    using assms(1) by (simp add: ScanAll_def ScanStream_def collect_failed)
qed

lemma ScanRow_first_row:
  "ScanRow rt0 fooMapping (zero rt0 (structType fooMapping))
     (testRow_Scan rt0 [(''foo'', stringT, ''bar'')]) [''foo'']
   = Return (None, StructV MyStructFoo [FieldV ''Foo'' (Val stringT ''bar'')])"
  by (simp add: ScanRow_def rt0_def convertible0_def numericKind_def integerKind_def complexKind_def fooMapping_def MyStructFoo_def nativeMapper_def
      testRow_Scan_def Cols_def storeAt_def stringT_def)

lemma ScanRow_second_row:
  "ScanRow rt0 fooMapping (zero rt0 (structType fooMapping)) (failingRow ''boom'') [''foo'']
   = Return (Some (Foreign ''boom''), zero rt0 MyStructFoo)"
  by (simp add: ScanRow_def rt0_def convertible0_def numericKind_def integerKind_def complexKind_def fooMapping_def MyStructFoo_def nativeMapper_def
      failingRow_def rowScanIndexRe_matchAt_def)

theorem C3_ScanAll_returns_no_rows_on_error_witness:
  "ScanAll rt0 fooMapping
     (cursorOf [''foo''] [testRow_Scan rt0 [(''foo'', stringT, ''bar'')], failingRow ''boom''])
   = Return (None, Some (Foreign ''boom''))"
proof -
  let ?r1 = "testRow_Scan rt0 [(''foo'', stringT, ''bar'')]"
  let ?rows = "cursorOf [''foo''] [?r1, failingRow ''boom'']"
  have 1: "columns ?rows = Inr [''foo'']"
    by (simp add: cursorOf_def)
  have 2: "pending ?rows = [?r1] @ failingRow ''boom'' # []"
    by (simp add: cursorOf_def)
  have 3: "\<forall>p \<in> set [?r1]. \<exists>scan.
             ScanRow rt0 fooMapping (zero rt0 (structType fooMapping)) p [''foo'']
             = Return (None, scan)"
    using ScanRow_first_row by simp
  show ?thesis
    by (rule C3_ScanAll_returns_no_rows_on_error [OF 1 2 3 ScanRow_second_row])
qed

subsection \<open>The JSON converter: Value, then Scan\<close>

lemma bitLen_le: "n < 2 ^ k \<Longrightarrow> bitLen n \<le> k"
proof (induction k arbitrary: n)
  case 0
  then show ?case by (subst bitLen.simps) simp
next
  case (Suc k)
  then have "n div 2 < 2 ^ k" by simp
  then have "bitLen (n div 2) \<le> k" by (rule Suc.IH)
  then show ?case by (subst bitLen.simps) simp
qed

text \<open>An integer below \<open>2 ^ 53\<close> in size is a \<^verbatim>\<open>float64\<close>.\<close>

lemma nearestFloat_small: "\<bar>i\<bar> < 2 ^ 53 \<Longrightarrow> nearestFloat i = of_int i"
  using bitLen_le [of "\<bar>i\<bar>" 53] by (simp add: nearestFloat_def Let_def)

lemma nearestFloat_examples:
  "nearestFloat (2 ^ 53 + 1) = 2 ^ 53"
  "nearestFloat (2 ^ 53 + 3) = 2 ^ 53 + 4"
  "nearestFloat (- (2 ^ 53) - 3) = - (2 ^ 53) - 4"
  "nearestFloat (2 ^ 64 - 1) = 2 ^ 64"
  by code_simp+

lemma toValidUTF8_ascii: "\<forall>c \<in> set s. of_char c < (128::nat) \<Longrightarrow> toValidUTF8 s = s"
  by (induction s) (simp_all add: toValidUTF8.simps runeSize.simps)

text \<open>
  The bytes \<^verbatim>\<open>6C FF C3 A9 C3 28\<close>: an \<^verbatim>\<open>l\<close>, a byte that begins no sequence, the
  sequence of \<^verbatim>\<open>U+00E9\<close>, a sequence that is cut short, and a bracket.
\<close>

lemma toValidUTF8_examples:
  "toValidUTF8 ''lol'' = ''lol''"
  "toValidUTF8 (map char_of [108, 255, 195, 169, 195, 40 :: nat])
     = map char_of [108, 239, 191, 189, 195, 169, 239, 191, 189, 40 :: nat]"
  by code_simp+

lemma mapassign_append:
  "\<forall>x \<in> set xs. keyOf x < keyOf e \<Longrightarrow> mapassign e xs = xs @ [e]"
  by (induction xs) auto

lemma foldl_mapassign_sorted:
  "sorted_wrt (<) (map keyOf es) \<Longrightarrow> foldl (\<lambda>m e. mapassign e m) [] es = es"
proof (induction es rule: rev_induct)
  case Nil
  then show ?case by simp
next
  case (snoc e es)
  from snoc.prems have sorted: "sorted_wrt (<) (map keyOf es)"
    and less: "\<forall>x \<in> set es. keyOf x < keyOf e"
    by (auto simp: sorted_wrt_append)
  show ?case
    using snoc.IH [OF sorted] mapassign_append [OF less] by simp
qed

lemma collect_results_map:
  "\<forall>v \<in> set vs. \<exists>j. f v = Inr j \<and> g j = v \<Longrightarrow>
   \<exists>js. collect_results (map f vs) = Inr js \<and> map g js = vs"
proof (induction vs)
  case Nil
  then show ?case by simp
next
  case (Cons v vs)
  then obtain j js where "f v = Inr j" "g j = v"
    "collect_results (map f vs) = Inr js" "map g js = vs"
    by auto
  then show ?case by simp
qed

text \<open>What \<^verbatim>\<open>Marshal\<close> makes of such a value, \<^verbatim>\<open>Unmarshal\<close> makes into that value again.\<close>

lemma marshal_unmarshal:
  "jsonNative v \<longrightarrow> (\<exists>j. marshal v = Inr j \<and> unmarshal j = v)"
  "jsonNativeEntry e \<longrightarrow> (\<exists>m. marshalEntry e = Inr m \<and> unmarshalMember m = e)"
proof (induction v and e)
  case (DFloat64 x)
  then show ?case by (cases x) simp_all
next
  case (DSlice vs)
  show ?case
  proof
    assume "jsonNative (DSlice vs)"
    then have "\<forall>v \<in> set vs. \<exists>j. marshal v = Inr j \<and> unmarshal j = v"
      using DSlice by (auto simp: list_all_iff)
    from collect_results_map [OF this]
    obtain js where "collect_results (map marshal vs) = Inr js" "map unmarshal js = vs"
      by blast
    then show "\<exists>j. marshal (DSlice vs) = Inr j \<and> unmarshal j = DSlice vs"
      by simp
  qed
next
  case (DMap es)
  show ?case
  proof
    assume native: "jsonNative (DMap es)"
    then have "\<forall>e \<in> set es. \<exists>m. marshalEntry e = Inr m \<and> unmarshalMember m = e"
      using DMap by (auto simp: list_all_iff)
    from collect_results_map [OF this]
    obtain ms where "collect_results (map marshalEntry es) = Inr ms"
      "map unmarshalMember ms = es"
      by blast
    moreover from native have "foldl (\<lambda>m e. mapassign e m) [] es = es"
      by (simp add: foldl_mapassign_sorted)
    ultimately show "\<exists>j. marshal (DMap es) = Inr j \<and> unmarshal j = DMap es"
      by simp
  qed
next
  case (Entry k v)
  then show ?case by auto
qed simp_all

lemma jsonScanner_examples:
  "jsonScanner_Value (Some [Entry ''f'' DFunc]) = Inl UnsupportedType"
  "jsonScanner_Value (Some [Entry ''x'' (DFloat64 NaN)]) = Inl (UnsupportedValue NaN)"
  "jsonScanner_Value (Some [Entry ''a'' DNilSlice])
     = Inr (VString (JSONText (JObject [Member ''a'' JNull])))"
  "jsonScanner_Scan (Some []) (VString (JSONText (JObject [Member ''a'' JNull])))
     = (None, Some [Entry ''a'' DNil])"
  "jsonScanner_Value None = Inr (VString (JSONText JNull))"
  "jsonScanner_Scan (Some []) (VString (JSONText JNull)) = (None, None)"
  "jsonScanner_Scan (Some []) VOther = (Some (CanNotDecode VOther), Some [])"
  "jsonScanner_Scan (Some []) (VString NoJSON) = (Some SyntaxError, Some [])"
  "jsonScanner_Scan (Some []) (VString (JSONText (JArray []))) = (Some UnmarshalTypeError, Some [])"
  by (simp_all add: jsonScanner_Value_def jsonScanner_Scan_def Encode_def Decode_def
      toValidUTF8_ascii)

text \<open>
  Claim C8 as stated (every \<^verbatim>\<open>map[string]interface{}\<close>, encoded by \<^verbatim>\<open>Value\<close> and the
  text decoded by \<^verbatim>\<open>Scan\<close>, comes back equal) fails. The map \<^verbatim>\<open>{"a": 1}\<close> with the
  \<^verbatim>\<open>int\<close> \<^verbatim>\<open>1\<close> is written as \<^verbatim>\<open>{"a":1}\<close>, and \<^verbatim>\<open>Scan\<close> into a new \<^verbatim>\<open>jsonScanner\<close>
  reads that as the map with the \<^verbatim>\<open>float64\<close> \<^verbatim>\<open>1\<close>, which is not equal to the \<^verbatim>\<open>int\<close>.
\<close>

theorem C8_integer_comes_back_as_float64:
  "jsonScanner_Value (Some [Entry ''a'' (DInt 1)])
     = Inr (VString (JSONText (JObject [Member ''a'' (JNumber (Digits 1))])))
   \<and> jsonScanner_Scan (Some []) (VString (JSONText (JObject [Member ''a'' (JNumber (Digits 1))])))
     = (None, Some [Entry ''a'' (DFloat64 (F64 1))])
   \<and> Some [Entry ''a'' (DFloat64 (F64 1))] \<noteq> Some [Entry ''a'' (DInt 1)]"
  by (simp add: jsonScanner_Value_def jsonScanner_Scan_def Encode_def Decode_def
      toValidUTF8_ascii nearestFloat_small)

text \<open>
  Claim C8, as amended. For a \<^verbatim>\<open>jsonScanner\<close> that is nil, or whose values are,
  at every depth, nil, a \<^verbatim>\<open>bool\<close>, a finite \<^verbatim>\<open>float64\<close>, a \<^verbatim>\<open>string\<close> of valid UTF-8,
  or a \<^verbatim>\<open>[]interface{}\<close> or \<^verbatim>\<open>map[string]interface{}\<close> that is not nil, and whose
  keys are valid UTF-8: \<^verbatim>\<open>Value\<close> returns a text and no error, and \<^verbatim>\<open>Scan\<close> of that
  text, as a \<^verbatim>\<open>string\<close> or as a \<^verbatim>\<open>[]byte\<close>, into a new \<^verbatim>\<open>jsonScanner\<close> (the
  \<^verbatim>\<open>&jsonScanner{}\<close> of \<^verbatim>\<open>Receive\<close>, or a nil one) returns no error and leaves a map
  equal to the first one.
\<close>

theorem C8_json_values_round_trip:
  assumes "case js of None \<Rightarrow> True | Some es \<Rightarrow> jsonNative (DMap es)"
  shows "\<exists>t. jsonScanner_Value js = Inr (VString t)
             \<and> jsonScanner_Scan (Some []) (VString t) = (None, js)
             \<and> jsonScanner_Scan (Some []) (VBytes t) = (None, js)
             \<and> jsonScanner_Scan None (VString t) = (None, js)"
proof (cases js)
  case None
  then show ?thesis
    by (simp add: jsonScanner_Value_def jsonScanner_Scan_def Encode_def Decode_def)
next
  case (Some es)
  with assms have native: "jsonNative (DMap es)"
    by simp
  then have "\<forall>e \<in> set es. \<exists>m. marshalEntry e = Inr m \<and> unmarshalMember m = e"
    using marshal_unmarshal(2) by (auto simp: list_all_iff)
  from collect_results_map [OF this]
  obtain ms where ms: "collect_results (map marshalEntry es) = Inr ms"
    "map unmarshalMember ms = es"
    by blast
  from native have "foldl (\<lambda>m e. mapassign e m) [] es = es"
    by (simp add: foldl_mapassign_sorted)
  with ms Some show ?thesis
    by (simp add: jsonScanner_Value_def jsonScanner_Scan_def Encode_def Decode_def)
qed

text \<open>
  The map \<^verbatim>\<open>{"lol": "cat"}\<close> of the tests, with a slice beside it that holds nil, a
  \<^verbatim>\<open>bool\<close>, the \<^verbatim>\<open>float64\<close> \<^verbatim>\<open>0.5\<close> and an empty map.
\<close>

theorem C8_json_values_round_trip_witness:
  "jsonScanner_Value
     (Some [Entry ''lol'' (DString ''cat''),
            Entry ''xs'' (DSlice [DNil, DBool True, DFloat64 (F64 (1 / 2)), DMap []])])
     = Inr (VString (JSONText (JObject
         [Member ''lol'' (JString ''cat''),
          Member ''xs'' (JArray [JNull, JBool True, JNumber (Shortest (1 / 2)), JObject []])])))
   \<and> jsonScanner_Scan (Some []) (VString (JSONText (JObject
         [Member ''lol'' (JString ''cat''),
          Member ''xs'' (JArray [JNull, JBool True, JNumber (Shortest (1 / 2)), JObject []])])))
     = (None, Some [Entry ''lol'' (DString ''cat''),
                    Entry ''xs'' (DSlice [DNil, DBool True, DFloat64 (F64 (1 / 2)), DMap []])])"
proof -
  let ?js = "Some [Entry ''lol'' (DString ''cat''),
                   Entry ''xs'' (DSlice [DNil, DBool True, DFloat64 (F64 (1 / 2)), DMap []])]"
  let ?t = "JSONText (JObject
         [Member ''lol'' (JString ''cat''),
          Member ''xs'' (JArray [JNull, JBool True, JNumber (Shortest (1 / 2)), JObject []])])"
  have keys: "''lol'' < ''xs''"
    by code_simp
  have native: "case ?js of None \<Rightarrow> True | Some es \<Rightarrow> jsonNative (DMap es)"
    using keys by (simp add: toValidUTF8_ascii)
  have v: "jsonScanner_Value ?js = Inr (VString ?t)"
    by (simp add: jsonScanner_Value_def Encode_def toValidUTF8_ascii)
  from C8_json_values_round_trip [OF native] obtain t
    where "jsonScanner_Value ?js = Inr (VString t)"
      and "jsonScanner_Scan (Some []) (VString t) = (None, ?js)"
    by blast
  with v show ?thesis
    by simp
qed

end
